theory Spec2Isabelle
  imports Complex_Main "HOL-Library.Char_ord" "HOL-Library.List_Lexorder" "HOL-Library.Log_Nat"
begin

section \<open>JavaScript values used by the aggregation layer\<close>

text \<open>
  A value of TypeScript type \<open>string | null\<close> (or \<open>string | undefined\<close>) is a
  \<open>string option\<close>; \<open>None\<close> stands for \<open>null\<close> and \<open>undefined\<close> alike. A string is
  truthy when it is present and not empty; \<open>a || b\<close> is \<open>a\<close> when \<open>a\<close> is truthy and
  \<open>b\<close> otherwise.
\<close>

definition truthy :: "string option \<Rightarrow> bool" where
  "truthy t = (case t of None \<Rightarrow> False | Some s \<Rightarrow> s \<noteq> [])"

definition js_or :: "string option \<Rightarrow> string option \<Rightarrow> string option" where
  "js_or a b = (if truthy a then a else b)"

text \<open>
  The result of \<open>await fetch(url).then(r => r.json())\<close>: the promise rejects (network
  failure or an undecodable body), or there is a response with a status code and a
  decoded body. \<open>Response.ok\<close> is true for the status codes 200 to 299.
\<close>

datatype 'a fetched = Throws | Http nat 'a

definition ok :: "nat \<Rightarrow> bool" where
  "ok status = (200 \<le> status \<and> status \<le> 299)"

section \<open>Credential resolver\<close>

text \<open>
  The ambient configuration read through \<open>process.env\<close>.
\<close>

record environment =
  GITHUB_ACCESS_TOKEN :: "string option"
  NEXT_PUBLIC_GITHUB_ACCESS_TOKEN :: "string option"


text \<open>
  \<open>lib/githubToken.ts\<close>, \<open>getGitHubToken()\<close>. It runs either on the server
  (\<open>typeof window === 'undefined'\<close>), where there is no caller storage, or in the
  browser, where \<open>localStorage.getItem('github_token')\<close> is the caller-supplied
  credential.
\<close>

datatype runtime = ServerSide | ClientSide "string option"

definition githubToken_getGitHubToken :: "runtime \<Rightarrow> environment \<Rightarrow> string option" where
  "githubToken_getGitHubToken rt env =
     (case rt of
        ServerSide \<Rightarrow> js_or (GITHUB_ACCESS_TOKEN env) None
      | ClientSide stored \<Rightarrow>
          if truthy (NEXT_PUBLIC_GITHUB_ACCESS_TOKEN env)
          then NEXT_PUBLIC_GITHUB_ACCESS_TOKEN env
          else stored)"

text \<open>
  \<open>createGitHubHeaders\<close> of \<open>lib/githubToken.ts\<close>: the fixed headers, and
  \<open>Authorization: token <credential>\<close> when a credential resolved. Only the
  authorization header varies, so the headers are modelled by its value.
\<close>

definition createGitHubHeaders :: "runtime \<Rightarrow> environment \<Rightarrow> string option" where
  "createGitHubHeaders rt env =
     (let token = githubToken_getGitHubToken rt env
      in if truthy token then Some (''token '' @ the token) else None)"

section \<open>Repositories and the profile page\<close>

text \<open>
  The \<open>Repository\<close> interface of \<open>types\<close>. The identifier is a number in the REST
  shape and the repository name in the entries built from pinned items.
\<close>

datatype repo_id = IdNumber int | IdName string

record repo_owner =
  owner_login :: string
  owner_id :: int
  owner_avatar_url :: string
  owner_html_url :: string

record repository =
  repo_id :: repo_id
  name :: string
  full_name :: string
  html_url :: string
  description :: "string option"
  fork :: bool
  created_at :: string
  updated_at :: string
  pushed_at :: string
  homepage :: "string option"
  repo_size :: int
  stargazers_count :: int
  watchers_count :: int
  language :: "string option"
  forks_count :: int
  open_issues_count :: int
  license :: "(string \<times> string \<times> string) option"
  topics :: "string list"
  visibility :: string
  default_branch :: string
  owner :: repo_owner

text \<open>The fields of \<open>GitHubUser\<close> that the aggregators read.\<close>

record github_user =
  login :: string
  user_name :: "string option"
  bio :: "string option"
  public_repos :: int
  followers :: int
  following :: int

text \<open>
  A node of \<open>pinnedItems\<close> in the GraphQL answer: name, description, url, counts,
  \<open>primaryLanguage { name color }\<close>, the topic names and the owner.
\<close>

record pinned_item =
  pin_name :: string
  pin_description :: "string option"
  pin_url :: string
  stargazerCount :: int
  forkCount :: int
  primaryLanguage :: "(string \<times> string option) option"
  repositoryTopics :: "string list"
  pin_owner_login :: string
  pin_owner_avatarUrl :: string

text \<open>
  The decoded body of the repository-list request: an array of repositories, or some
  other JSON value (GitHub answers a refused request with an object carrying a message),
  on which \<open>find\<close>, \<open>forEach\<close> and spreading raise a \<open>TypeError\<close>.
\<close>

datatype repos_payload = RepoArray "repository list" | NotArray

text \<open>
  \<open>Array.prototype.sort(cmp)\<close> is stable: an element stays in front of a later one
  unless the comparator puts it strictly behind. Insertion from the right gives
  that order. The comparator returns a number, an integer or a fraction.
\<close>

fun js_insert :: "('a \<Rightarrow> 'a \<Rightarrow> 'n::{zero,ord}) \<Rightarrow> 'a \<Rightarrow> 'a list \<Rightarrow> 'a list" where
  "js_insert cmp x [] = [x]"
| "js_insert cmp x (y # ys) = (if cmp x y \<le> 0 then x # y # ys else y # js_insert cmp x ys)"

definition js_sort :: "('a \<Rightarrow> 'a \<Rightarrow> 'n::{zero,ord}) \<Rightarrow> 'a list \<Rightarrow> 'a list" where
  "js_sort cmp xs = foldr (js_insert cmp) xs []"

text \<open>
  A JavaScript \<open>Set\<close> iterates in insertion order, and \<open>add\<close> of a member changes
  nothing: a list without repetitions, extended at the end.
\<close>

definition set_add :: "'a \<Rightarrow> 'a list \<Rightarrow> 'a list" where
  "set_add x s = (if x \<in> set s then s else s @ [x])"

text \<open>\<open>a || b\<close> on strings that cannot be null.\<close>

definition str_or :: "string \<Rightarrow> string \<Rightarrow> string" where
  "str_or a b = (if a \<noteq> [] then a else b)"

text \<open>
  The callback of \<open>pinnedItems.map\<close> in \<open>fetchGitHubProfile\<close>
  (\<open>app/[username]/page.tsx\<close>): the entry built from one pinned item and the REST
  record of the same name, if there is one. \<open>now\<close> is \<open>new Date().toISOString()\<close>;
  the three calls within one entry are taken to read the same instant.
\<close>

definition formatPinnedRepo :: "string \<Rightarrow> repository list \<Rightarrow> pinned_item \<Rightarrow> repository" where
  "formatPinnedRepo now reposData item =
     (let repoDetails = find (\<lambda>repo. name repo = pin_name item) reposData
      in \<lparr> repo_id = IdName (pin_name item),
           name = pin_name item,
           full_name = pin_owner_login item @ ''/'' @ pin_name item,
           html_url = pin_url item,
           description = pin_description item,
           fork = False,
           created_at = str_or (case repoDetails of None \<Rightarrow> [] | Some d \<Rightarrow> created_at d) now,
           updated_at = str_or (case repoDetails of None \<Rightarrow> [] | Some d \<Rightarrow> updated_at d) now,
           pushed_at = str_or (case repoDetails of None \<Rightarrow> [] | Some d \<Rightarrow> pushed_at d) now,
           homepage = js_or (case repoDetails of None \<Rightarrow> None | Some d \<Rightarrow> homepage d) None,
           repo_size = 0,
           stargazers_count = stargazerCount item,
           watchers_count = 0,
           language = js_or (map_option fst (primaryLanguage item)) None,
           forks_count = forkCount item,
           open_issues_count = 0,
           license = None,
           topics = repositoryTopics item,
           visibility = [],
           default_branch = [],
           owner = \<lparr> owner_login = pin_owner_login item,
                     owner_id = 0,
                     owner_avatar_url = pin_owner_avatarUrl item,
                     owner_html_url = ''https://github.com/'' @ pin_owner_login item \<rparr> \<rparr>)"

text \<open>
  \<open>pinnedItems.map(...)\<close> as a whole. A node is \<open>None\<close> when it lacks the fields the
  callback dereferences. The callback runs once per node, so an empty list maps to an
  empty list whatever \<open>reposData\<close> is; on a node it raises a \<open>TypeError\<close> (the result
  \<open>None\<close>) when the node is malformed or \<open>reposData\<close> has no \<open>find\<close>.
\<close>

definition formattedPinnedRepos ::
  "string \<Rightarrow> repos_payload \<Rightarrow> pinned_item option list \<Rightarrow> repository list option" where
  "formattedPinnedRepos now reposData pinnedItems =
     (if pinnedItems = [] then Some []
      else case reposData of
             NotArray \<Rightarrow> None
           | RepoArray rs \<Rightarrow>
               if None \<in> set pinnedItems then None
               else Some (map (\<lambda>item. formatPinnedRepo now rs (the item)) pinnedItems))"

text \<open>
  The \<open>catch\<close> branch of the GraphQL stage: the non-fork repositories by stars,
  the first six.
\<close>

definition fallbackRepos :: "repository list \<Rightarrow> repository list" where
  "fallbackRepos reposData =
     take 6 (js_sort (\<lambda>a b. stargazers_count b - stargazers_count a)
               (filter (\<lambda>repo. \<not> fork repo) reposData))"

text \<open>The skills: the truthy languages in a \<open>Set\<close>, its first six members.\<close>

definition extract_skills :: "repository list \<Rightarrow> string list" where
  "extract_skills reposData =
     take 6 (foldl (\<lambda>languages repo.
                      if truthy (language repo) then set_add (the (language repo)) languages
                      else languages)
               [] reposData)"

text \<open>
  What one run of \<open>fetchGitHubProfile\<close> meets: the stored token, the environment,
  the answers of the three requests and the clock.
\<close>

record profile_world =
  stored_token :: "string option"
  process_env :: environment
  user_response :: "github_user fetched"
  repos_response :: "repos_payload fetched"
  graphql_response :: "pinned_item option list option fetched"
  clock :: string

text \<open>
  The requests the aggregators issue, each with the value of its \<open>Authorization\<close>
  header (absent when no credential resolved): the profile, the repository list of the
  profile page, the GraphQL query, the ten most recently pushed repositories and the
  participation statistic of a repository.
\<close>

datatype request =
    GetUser string "string option"
  | GetUserRepos string "string option"
  | PostGraphQL string string
  | GetRecentRepos string "string option"
  | GetParticipation string "string option"

text \<open>
  The component state when the run has ended. \<open>error\<close> is the failure behind the
  message of \<open>setError\<close>: the profile request answered with a status that is not ok, a
  request was rejected, or a \<open>TypeError\<close> was raised.
\<close>

datatype failure = UserNotFound nat | Rejected | TypeError

record page_state =
  userData :: "github_user option"
  repos :: "repository list"
  pinnedRepos :: "repository list"
  skills :: "string list"
  error :: "failure option"
  loading :: bool

definition initial_state :: page_state where
  "initial_state =
     \<lparr> userData = None, repos = [], pinnedRepos = [], skills = [], error = None, loading = True \<rparr>"

text \<open>The outer \<open>catch\<close> and \<open>finally\<close>. The skills are set last, so they are still empty.\<close>

definition failed :: "failure \<Rightarrow> page_state" where
  "failed e =
     \<lparr> userData = None, repos = [], pinnedRepos = [], skills = [], error = Some e, loading = False \<rparr>"

text \<open>
  The GraphQL stage of \<open>fetchGitHubProfile\<close> after its request has been sent: the
  value given to \<open>setPinnedRepos\<close>, or \<open>None\<close> when the \<open>catch\<close> branch itself raises.
\<close>

definition pinned_stage ::
  "string \<Rightarrow> repos_payload \<Rightarrow> pinned_item option list option fetched \<Rightarrow> repository list option" where
  "pinned_stage now reposData res =
     (let caught = (case reposData of NotArray \<Rightarrow> None | RepoArray rs \<Rightarrow> Some (fallbackRepos rs))
      in case res of
           Throws \<Rightarrow> caught
         | Http status graphqlData \<Rightarrow>
             (let pinnedItems = (case graphqlData of None \<Rightarrow> [] | Some nodes \<Rightarrow> nodes)
              in case formattedPinnedRepos now reposData pinnedItems of
                   None \<Rightarrow> caught
                 | Some formatted \<Rightarrow> Some formatted))"

text \<open>
  \<open>fetchGitHubProfile\<close>: the requests issued and the state left behind. The token of
  the GraphQL request is \<open>localStorage.getItem('github_token') ||
  process.env.NEXT_PUBLIC_GITHUB_ACCESS_TOKEN\<close>, pasted into \<open>Bearer ${token}\<close>; when
  neither is set the template renders \<open>undefined\<close>.
\<close>

definition fetchGitHubProfile :: "profile_world \<Rightarrow> string \<Rightarrow> request list \<times> page_state" where
  "fetchGitHubProfile w username =
     (if username = [] then ([], initial_state)
      else
        let headers = createGitHubHeaders (ClientSide (stored_token w)) (process_env w);
            r1 = GetUser username headers;
            r2 = GetUserRepos username headers
        in case user_response w of
             Throws \<Rightarrow> ([r1], failed Rejected)
           | Http status user \<Rightarrow>
               if \<not> ok status then ([r1], failed (UserNotFound status))
               else
                 (case repos_response w of
                    Throws \<Rightarrow> ([r1, r2], failed Rejected)
                  | Http status2 reposData \<Rightarrow>
                      let token = js_or (stored_token w) (NEXT_PUBLIC_GITHUB_ACCESS_TOKEN (process_env w));
                          r3 = PostGraphQL username
                                 (''Bearer '' @ (case token of None \<Rightarrow> ''undefined'' | Some t \<Rightarrow> t))
                      in case pinned_stage (clock w) reposData (graphql_response w) of
                           None \<Rightarrow> ([r1, r2, r3], failed TypeError)
                         | Some pinned \<Rightarrow>
                             (case reposData of
                                NotArray \<Rightarrow> ([r1, r2, r3], failed TypeError)
                              | RepoArray rs \<Rightarrow>
                                  ([r1, r2, r3],
                                   \<lparr> userData = Some user, repos = rs, pinnedRepos = pinned,
                                     skills = extract_skills rs, error = None,
                                     loading = False \<rparr>))))"

text \<open>
  What the page renders from the state: the spinner, the not-found page, or the profile
  with its skills and its featured section. The featured section tells an account
  without repositories from one without pinned repositories, for which it shows the
  non-fork repositories by push time, the first four. \<open>getTime\<close> is
  \<open>new Date(s).getTime()\<close>.
\<close>

datatype featured =
    NoRepositories
  | MostActive "repository list"
  | Pinned "repository list"

datatype profile_view =
    LoadingView
  | ProfileNotFoundView
  | ProfileView github_user "string list" featured

definition most_active :: "(string \<Rightarrow> int) \<Rightarrow> repository list \<Rightarrow> repository list" where
  "most_active getTime rs =
     take 4 (js_sort (\<lambda>a b. getTime (pushed_at b) - getTime (pushed_at a))
               (filter (\<lambda>repo. \<not> fork repo) rs))"

definition render :: "(string \<Rightarrow> int) \<Rightarrow> page_state \<Rightarrow> profile_view" where
  "render getTime st =
     (if loading st then LoadingView
      else if error st \<noteq> None \<or> userData st = None then ProfileNotFoundView
      else ProfileView (the (userData st)) (skills st)
             (if repos st = [] then NoRepositories
              else if pinnedRepos st = [] then MostActive (most_active getTime (repos st))
              else Pinned (pinnedRepos st)))"

text \<open>The list of repositories the featured section shows.\<close>

fun featured_list :: "profile_view \<Rightarrow> repository list" where
  "featured_list (ProfileView u s (MostActive rs)) = rs"
| "featured_list (ProfileView u s (Pinned rs)) = rs"
| "featured_list v = []"

section \<open>The pinned-repositories component\<close>

text \<open>
  \<open>fetchPinnedRepos\<close> of \<open>components/PinnedRepos.tsx\<close>. The GraphQL request is sent
  only under \<open>if (activeToken)\<close>; its nodes carry a name each (\<open>None\<close> for a null
  node, on which the callback raises). Whatever goes wrong there is caught and
  the heuristic takes over: the repositories by a score of stars, forks and push time,
  the first six that are not forks. The score divides the push time by \<open>1000000000\<close>;
  the quotient is kept exact here.
\<close>

definition score :: "(string \<Rightarrow> int) \<Rightarrow> repository \<Rightarrow> rat" where
  "score getTime a =
     of_int (stargazers_count a * 3 + forks_count a * 2) + of_int (getTime (pushed_at a)) / 1000000000"

definition fetchPinnedRepos ::
  "environment \<Rightarrow> (string \<Rightarrow> int) \<Rightarrow> string option list option fetched \<Rightarrow>
   string \<Rightarrow> repository list \<Rightarrow> string option \<Rightarrow> request list \<times> repository list" where
  "fetchPinnedRepos env getTime res username rs token =
     (let activeToken = js_or (GITHUB_ACCESS_TOKEN env) token;
          topRepos = take 6 (filter (\<lambda>repo. \<not> fork repo)
                       (js_sort (\<lambda>a b. score getTime b - score getTime a) rs))
      in if truthy activeToken then
           (let r = PostGraphQL username (''bearer '' @ the activeToken)
            in case res of
                 Throws \<Rightarrow> ([r], topRepos)
               | Http status None \<Rightarrow> ([r], topRepos)
               | Http status (Some graphqlPinned) \<Rightarrow>
                   if None \<in> set graphqlPinned then ([r], topRepos)
                   else
                     (let pinnedWithFullData =
                            List.map_filter
                              (\<lambda>pinnedItem. find (\<lambda>repo. name repo = the pinnedItem) rs)
                              graphqlPinned
                      in if pinnedWithFullData \<noteq> [] then ([r], pinnedWithFullData)
                         else ([r], topRepos)))
         else ([], topRepos))"

text \<open>The effect runs \<open>fetchPinnedRepos\<close> only for a username and a non-empty list.\<close>

definition PinnedRepos ::
  "environment \<Rightarrow> (string \<Rightarrow> int) \<Rightarrow> string option list option fetched \<Rightarrow>
   string \<Rightarrow> repository list \<Rightarrow> string option \<Rightarrow> request list \<times> repository list" where
  "PinnedRepos env getTime res username rs token =
     (if username \<noteq> [] \<and> rs \<noteq> [] then fetchPinnedRepos env getTime res username rs token
      else ([], []))"

section \<open>The activity graph\<close>

text \<open>\<open>String(n)\<close> for a natural number, \<open>padStart\<close> and \<open>split\<close> on one character.\<close>

fun string_of_nat :: "nat \<Rightarrow> string" where
  "string_of_nat n =
     (if n < 10 then [''0123456789'' ! n]
      else string_of_nat (n div 10) @ [''0123456789'' ! (n mod 10)])"

definition padStart :: "nat \<Rightarrow> char \<Rightarrow> string \<Rightarrow> string" where
  "padStart n c s = replicate (n - length s) c @ s"

fun split_on :: "char \<Rightarrow> string \<Rightarrow> string list" where
  "split_on c [] = [[]]"
| "split_on c (x # xs) =
     (if x = c then [] # split_on c xs
      else (case split_on c xs of p # ps \<Rightarrow> (x # p) # ps | [] \<Rightarrow> [[x]]))"

text \<open>
  A point of the chart, and what \<open>fetchActivityData\<close> of
  \<open>components/ActivityGraph.tsx\<close> leaves behind: nothing yet (no username, the effect
  does not run), the error \<open>Failed to load activity data\<close>, or the points given to
  \<open>setActivityData\<close>.
\<close>

record activity_point =
  point_name :: string
  commits :: int
  point_date :: string

datatype activity_result = ActivityLoading | ActivityFailed | ActivityData "activity_point list"

text \<open>
  One participation answer, as the loop reads it: the weekly counts of the owner when
  the response is ok, the body has an \<open>owner\<close> array and some week of it is positive. A
  rejected request is caught inside the loop and counts as no data.
\<close>

definition owner_participation :: "int list option fetched \<Rightarrow> int list option" where
  "owner_participation res =
     (case res of
        Throws \<Rightarrow> None
      | Http status body \<Rightarrow>
          if ok status then
            (case body of
               None \<Rightarrow> None
             | Some weeks \<Rightarrow> if list_ex (\<lambda>val. val > 0) weeks then Some weeks else None)
          else None)"

text \<open>
  The loop over the candidates: every candidate met costs one request, and the first
  one with data ends the loop (\<open>break\<close>).
\<close>

fun scan_participation ::
  "(string \<Rightarrow> int list option fetched) \<Rightarrow> string option \<Rightarrow> repository list \<Rightarrow>
   request list \<times> (string \<times> int list) option" where
  "scan_participation part headers [] = ([], None)"
| "scan_participation part headers (repo # rest) =
     (case owner_participation (part (full_name repo)) of
        Some weeks \<Rightarrow> ([GetParticipation (full_name repo) headers], Some (name repo, weeks))
      | None \<Rightarrow>
          (let (reqs, commitData) = scan_participation part headers rest
           in (GetParticipation (full_name repo) headers # reqs, commitData)))"

text \<open>
  The fallback on push dates. \<open>localDate\<close> gives \<open>getFullYear()\<close> and \<open>getMonth()\<close> of
  \<open>new Date(pushed_at)\<close> in the local time zone. The object \<open>activityMap\<close> keeps its keys
  in insertion order; \<open>count_push\<close> is \<open>activityMap[k] = (activityMap[k] || 0) + 1\<close>.
\<close>

definition dateKey :: "(string \<Rightarrow> nat \<times> nat) \<Rightarrow> repository \<Rightarrow> string" where
  "dateKey localDate repo =
     (let (fullYear, month) = localDate (pushed_at repo)
      in string_of_nat fullYear @ ''-'' @ padStart 2 CHR ''0'' (string_of_nat (month + 1)))"

definition count_push :: "string \<Rightarrow> (string \<times> int) list \<Rightarrow> (string \<times> int) list" where
  "count_push k m =
     (case map_of m k of
        None \<Rightarrow> m @ [(k, 1)]
      | Some c \<Rightarrow> map (\<lambda>(k', c'). if k' = k then (k', c + 1) else (k', c')) m)"

text \<open>\<open>`${month}/${year.slice(2)}`\<close> from the parts of \<open>dateKey.split('-')\<close>.\<close>

fun month_label :: "string list \<Rightarrow> string" where
  "month_label (year # month # rest) = month @ ''/'' @ drop 2 year"
| "month_label [year] = ''undefined/'' @ drop 2 year"
| "month_label [] = []"

definition push_activity :: "(string \<Rightarrow> nat \<times> nat) \<Rightarrow> repository list \<Rightarrow> activity_point list" where
  "push_activity localDate rs =
     (let activityMap = foldl (\<lambda>m repo. count_push (dateKey localDate repo) m) [] rs;
          formattedData =
            map (\<lambda>k. \<lparr> point_name = month_label (split_on CHR ''-'' k),
                        commits = the (map_of activityMap k),
                        point_date = k \<rparr>)
              (sort (map fst activityMap))
      in drop (length formattedData - 12) formattedData)"

text \<open>
  The weekly points of a participation statistic. \<open>weeksAgo n\<close> is the label
  \<open>month/day\<close> of the day \<open>7 * n\<close> days before today.
\<close>

definition participation_points :: "(nat \<Rightarrow> string) \<Rightarrow> int list \<Rightarrow> activity_point list" where
  "participation_points weeksAgo weeks =
     map (\<lambda>(index, count).
            \<lparr> point_name = ''Week '' @ string_of_nat (index + 1),
              commits = count,
              point_date = weeksAgo (length weeks - 1 - index) \<rparr>)
       (enumerate 0 weeks)"

text \<open>What one run of \<open>fetchActivityData\<close> meets.\<close>

record activity_world =
  activity_token :: "string option"
  activity_env :: environment
  recent_repos_response :: "repos_payload fetched"
  participation_response :: "string \<Rightarrow> int list option fetched"
  clock_localDate :: "string \<Rightarrow> nat \<times> nat"
  clock_weeksAgo :: "nat \<Rightarrow> string"

definition fetchActivityData :: "activity_world \<Rightarrow> string \<Rightarrow> request list \<times> activity_result" where
  "fetchActivityData w username =
     (if username = [] then ([], ActivityLoading)
      else
        let headers = createGitHubHeaders (ClientSide (activity_token w)) (activity_env w);
            r0 = GetRecentRepos username headers
        in case recent_repos_response w of
             Throws \<Rightarrow> ([r0], ActivityFailed)
           | Http status payload \<Rightarrow>
               if \<not> ok status then ([r0], ActivityFailed)
               else
                 (case payload of
                    NotArray \<Rightarrow> ([r0], ActivityFailed)
                  | RepoArray rs \<Rightarrow>
                      if length rs = 0 then ([r0], ActivityData [])
                      else
                        let nonForkRepos = filter (\<lambda>repo. \<not> fork repo) rs
                        in if length nonForkRepos = 0 then ([r0], ActivityData [])
                           else
                             (case scan_participation (participation_response w) headers
                                     (take (min (length nonForkRepos) 3) nonForkRepos) of
                                (reqs, None) \<Rightarrow>
                                  (r0 # reqs, ActivityData (push_activity (clock_localDate w) rs))
                              | (reqs, Some (repo_name, weeks)) \<Rightarrow>
                                  (r0 # reqs,
                                   ActivityData
                                     (filter (\<lambda>item. commits item > 0)
                                        (participation_points (clock_weeksAgo w) weeks))))))"

text \<open>What the card shows for the state of the activity data.\<close>

datatype activity_view =
    ActivitySpinner
  | ActivityErrorView
  | NoActivityData
  | ActivityChart "activity_point list"

definition activity_view :: "activity_result \<Rightarrow> activity_view" where
  "activity_view res =
     (case res of
        ActivityLoading \<Rightarrow> ActivitySpinner
      | ActivityFailed \<Rightarrow> ActivityErrorView
      | ActivityData points \<Rightarrow> if length points = 0 then NoActivityData else ActivityChart points)"

section \<open>Similar profiles\<close>

text \<open>
  An account as the contributor, owner, follower and following lists carry it, an item
  of a repository search, and a candidate of \<open>components/SimilarProfiles.tsx\<close>.
\<close>

record account =
  acc_login :: string
  acc_avatar_url :: string
  acc_html_url :: string

record search_item =
  contributors_url :: string
  item_owner :: account

record similar_user =
  su_login :: string
  su_avatar_url :: string
  su_html_url :: string
  su_name :: "string option"
  similarity_reason :: string

text \<open>
  What one run of \<open>findSimilarProfiles\<close> meets: the answers of the repository search
  (by its query; the body may lack \<open>items\<close>), of a contributors URL, of the followers
  of a user, of the accounts a user follows, and of a profile (its display name).
\<close>

record similar_world =
  search_response :: "string \<Rightarrow> search_item list option fetched"
  url_response :: "string \<Rightarrow> account list fetched"
  followers_response :: "string \<Rightarrow> account list fetched"
  following_response :: "string \<Rightarrow> account list fetched"
  details_response :: "string \<Rightarrow> string option fetched"

text \<open>
  \<open>similarUsersSet\<close> is a \<open>Map\<close> from logins to candidates, in insertion order. The
  body shared by the three loops: skip the current user, and set the candidate only
  when the map does not have the login yet.
\<close>

definition add_candidate ::
  "string \<Rightarrow> string \<Rightarrow> (string \<times> similar_user) list \<Rightarrow> account \<Rightarrow> (string \<times> similar_user) list" where
  "add_candidate self reason m a =
     (if acc_login a = self then m
      else if acc_login a \<in> fst ` set m then m
      else m @ [(acc_login a,
                 \<lparr> su_login = acc_login a, su_avatar_url = acc_avatar_url a,
                   su_html_url = acc_html_url a, su_name = None,
                   similarity_reason = reason \<rparr>)])"

text \<open>
  The primary language: the counts per language in insertion order, sorted by count
  in descending order, the first key.
\<close>

definition primaryLanguage_of :: "repository list \<Rightarrow> string option" where
  "primaryLanguage_of rs =
     (let languageCounts =
            foldl (\<lambda>m repo. if truthy (language repo) then count_push (the (language repo)) m else m)
              [] rs
      in case map fst (js_sort (\<lambda>a b. snd b - snd a) languageCounts) of
           [] \<Rightarrow> None
         | l # rest \<Rightarrow> Some l)"

definition userLanguages_of :: "repository list \<Rightarrow> string list" where
  "userLanguages_of rs =
     foldl (\<lambda>s repo. if truthy (language repo) then set_add (the (language repo)) s else s) [] rs"

definition userTopics_of :: "repository list \<Rightarrow> string list" where
  "userTopics_of rs =
     foldl (\<lambda>s repo. if topics repo \<noteq> [] then foldl (\<lambda>s' topic. set_add topic s') s (topics repo) else s)
       [] rs"

fun join :: "string \<Rightarrow> string list \<Rightarrow> string" where
  "join sep [] = []"
| "join sep [x] = x"
| "join sep (x # y # ys) = x @ sep @ join sep (y # ys)"

text \<open>
  Method 1: the contributors (five at most) of the first three repositories found for
  the primary language. A rejected search, or a body without \<open>items\<close>, ends the run in
  the outer \<open>catch\<close> (the result \<open>None\<close>); a failure for one repository is caught in the
  loop.
\<close>

definition contributors_step ::
  "similar_world \<Rightarrow> string \<Rightarrow> string \<Rightarrow> (string \<times> similar_user) list \<Rightarrow> search_item \<Rightarrow>
   (string \<times> similar_user) list" where
  "contributors_step w self reason m repo =
     (case url_response w (contributors_url repo) of
        Throws \<Rightarrow> m
      | Http status contributors \<Rightarrow>
          if ok status then foldl (add_candidate self reason) m (take 5 contributors) else m)"

definition method1 ::
  "similar_world \<Rightarrow> github_user \<Rightarrow> string option \<Rightarrow> (string \<times> similar_user) list \<Rightarrow>
   (string \<times> similar_user) list option" where
  "method1 w user primaryLang m =
     (if truthy primaryLang then
        (case search_response w (''language:'' @ the primaryLang @ ''+stars:>10'') of
           Throws \<Rightarrow> None
         | Http status body \<Rightarrow>
             if ok status then
               (case body of
                  None \<Rightarrow> None
                | Some items \<Rightarrow>
                    Some (foldl (contributors_step w (login user)
                                   (''Also works with '' @ the primaryLang))
                            m (take 3 items)))
             else Some m)
      else Some m)"

text \<open>Method 2: the owners of the repositories found for the first three topics.\<close>

definition method2 ::
  "similar_world \<Rightarrow> github_user \<Rightarrow> string list \<Rightarrow> (string \<times> similar_user) list \<Rightarrow>
   (string \<times> similar_user) list option" where
  "method2 w user userTopics m =
     (if length userTopics > 0 then
        (case search_response w (''topic:'' @ join ''+'' (take 3 userTopics) @ ''+stars:>5'') of
           Throws \<Rightarrow> None
         | Http status body \<Rightarrow>
             if ok status then
               (case body of
                  None \<Rightarrow> None
                | Some items \<Rightarrow>
                    Some (foldl (add_candidate (login user) ''Works on similar topics'') m
                            (map item_owner items)))
             else Some m)
      else Some m)"

text \<open>Method 3: the accounts followed by the followers of the user.\<close>

definition following_step ::
  "similar_world \<Rightarrow> string \<Rightarrow> (string \<times> similar_user) list \<Rightarrow> account \<Rightarrow>
   (string \<times> similar_user) list" where
  "following_step w self m follower =
     (case following_response w (acc_login follower) of
        Throws \<Rightarrow> m
      | Http status followerFollowing \<Rightarrow>
          if ok status
          then foldl (add_candidate self ''Followed by people who follow you'') m followerFollowing
          else m)"

definition method3 ::
  "similar_world \<Rightarrow> github_user \<Rightarrow> (string \<times> similar_user) list \<Rightarrow>
   (string \<times> similar_user) list option" where
  "method3 w user m =
     (if followers user > 0 then
        (case followers_response w (login user) of
           Throws \<Rightarrow> None
         | Http status fs \<Rightarrow>
             if ok status then Some (foldl (following_step w (login user)) m fs) else Some m)
      else Some m)"

text \<open>
  The enrichment of one candidate: the display name of its profile when that request
  is answered ok, the candidate as it is otherwise.
\<close>

definition enhance :: "similar_world \<Rightarrow> similar_user \<Rightarrow> similar_user" where
  "enhance w simUser =
     (case details_response w (su_login simUser) of
        Throws \<Rightarrow> simUser
      | Http status userData_name \<Rightarrow>
          if ok status then simUser \<lparr> su_name := userData_name \<rparr> else simUser)"

text \<open>
  \<open>findSimilarProfiles\<close> with the guard of its effect: not run without repositories,
  failed in the outer \<open>catch\<close>, or the candidates given to \<open>setSimilarUsers\<close>.
\<close>

datatype similar_result = SimilarNotRun | SimilarFailed | SimilarUsers "similar_user list"

definition findSimilarProfiles :: "similar_world \<Rightarrow> github_user \<Rightarrow> repository list \<Rightarrow> similar_result" where
  "findSimilarProfiles w user rs =
     (if \<not> length rs > 0 then SimilarNotRun
      else
        let userLanguages = userLanguages_of rs;
            userTopics = userTopics_of rs
        in if length userLanguages = 0 \<and> length userTopics = 0 then SimilarUsers []
           else
             (case method1 w user (primaryLanguage_of rs) [] of
                None \<Rightarrow> SimilarFailed
              | Some m1 \<Rightarrow>
                  (case method2 w user userTopics m1 of
                     None \<Rightarrow> SimilarFailed
                   | Some m2 \<Rightarrow>
                       (case method3 w user m2 of
                          None \<Rightarrow> SimilarFailed
                        | Some similarUsersSet \<Rightarrow>
                            SimilarUsers (map (enhance w) (take 6 (map snd similarUsersSet)))))))"

section \<open>Language percentages of the project page\<close>

text \<open>
  A JavaScript number is an IEEE 754 double: a finite value, \<open>NaN\<close> or an infinity. A
  finite value is kept as the rational it denotes; the sign of zero is left out.
\<close>

datatype js_number = Num rat | NaN | Infinity | NegInfinity

text \<open>
  The rounding of an exact result to a double, to nearest, ties to the even mantissa.
  \<open>floor_log2 a\<close> is the binary exponent of a positive \<open>a\<close>, the largest \<open>d\<close> with
  \<open>2 ^ d \<le> a\<close>. The mantissa has 53 bits, so the unit of the last place is
  \<open>2 ^ (floor_log2 a - 52)\<close>, and not below \<open>2 ^ (- 1074)\<close>, the unit of the subnormal
  numbers. A rounded magnitude of \<open>2 ^ 1024\<close> or more overflows to an infinity.
\<close>

definition floor_log2 :: "rat \<Rightarrow> int" where
  "floor_log2 a =
     (let (p, q) = quotient_of a;
          d = bitlen p - bitlen q
      in if 2 powi d \<le> a then d else d - 1)"

definition round_half_even :: "rat \<Rightarrow> int" where
  "round_half_even x =
     (let f = \<lfloor>x\<rfloor>; r = x - of_int f
      in if r < 1 / 2 then f else if 1 / 2 < r then f + 1 else if even f then f else f + 1)"

definition to_double :: "rat \<Rightarrow> js_number" where
  "to_double x =
     (if x = 0 then Num 0
      else
        let a = \<bar>x\<bar>;
            e = max (floor_log2 a - 52) (- 1074);
            v = of_int (round_half_even (a / 2 powi e)) * 2 powi e
        in if 2 powi 1024 \<le> v then (if 0 < x then Infinity else NegInfinity)
           else Num (if 0 < x then v else - v))"

text \<open>
  \<open>a + b\<close>, \<open>a / b\<close> and \<open>a * b\<close>: on finite operands the exact result, rounded; a
  division by zero gives \<open>NaN\<close> for \<open>0 / 0\<close> and an infinity otherwise; \<open>NaN\<close> and the
  infinities propagate as in IEEE 754.
\<close>

fun js_plus :: "js_number \<Rightarrow> js_number \<Rightarrow> js_number" where
  "js_plus (Num a) (Num b) = to_double (a + b)"
| "js_plus NaN y = NaN"
| "js_plus x NaN = NaN"
| "js_plus Infinity NegInfinity = NaN"
| "js_plus NegInfinity Infinity = NaN"
| "js_plus Infinity y = Infinity"
| "js_plus x Infinity = Infinity"
| "js_plus NegInfinity y = NegInfinity"
| "js_plus x NegInfinity = NegInfinity"

fun js_divide :: "js_number \<Rightarrow> js_number \<Rightarrow> js_number" where
  "js_divide (Num a) (Num b) =
     (if b \<noteq> 0 then to_double (a / b)
      else if a = 0 then NaN else if 0 < a then Infinity else NegInfinity)"
| "js_divide NaN y = NaN"
| "js_divide x NaN = NaN"
| "js_divide (Num a) y = Num 0"
| "js_divide Infinity (Num b) = (if 0 \<le> b then Infinity else NegInfinity)"
| "js_divide NegInfinity (Num b) = (if 0 \<le> b then NegInfinity else Infinity)"
| "js_divide x y = NaN"

fun js_times :: "js_number \<Rightarrow> js_number \<Rightarrow> js_number" where
  "js_times (Num a) (Num b) = to_double (a * b)"
| "js_times NaN y = NaN"
| "js_times x NaN = NaN"
| "js_times (Num a) Infinity = (if a = 0 then NaN else if 0 < a then Infinity else NegInfinity)"
| "js_times (Num a) NegInfinity = (if a = 0 then NaN else if 0 < a then NegInfinity else Infinity)"
| "js_times Infinity (Num b) = (if b = 0 then NaN else if 0 < b then Infinity else NegInfinity)"
| "js_times NegInfinity (Num b) = (if b = 0 then NaN else if 0 < b then NegInfinity else Infinity)"
| "js_times Infinity Infinity = Infinity"
| "js_times NegInfinity NegInfinity = Infinity"
| "js_times Infinity NegInfinity = NegInfinity"
| "js_times NegInfinity Infinity = NegInfinity"

text \<open>
  \<open>Math.round\<close> gives the nearest integer, a half upwards, and leaves \<open>NaN\<close> and the
  infinities as they are. The result is a double without further rounding: a double
  of magnitude \<open>2 ^ 52\<close> or more is an integer already.
\<close>

fun Math_round :: "js_number \<Rightarrow> js_number" where
  "Math_round (Num a) = Num (of_int \<lfloor>a + 1 / 2\<rfloor>)"
| "Math_round x = x"

text \<open>
  A byte count of the languages response, a non-negative integer of the JSON text, read
  as a number.
\<close>

definition js_of_nat :: "nat \<Rightarrow> js_number" where
  "js_of_nat n = to_double (of_nat n)"

text \<open>
  \<open>calculateLanguagePercentages\<close> of \<open>app/[username]/projects/[repo]/page.tsx\<close>. The
  state \<open>languages\<close> is the object of byte counts per language, in the order of
  \<open>Object.entries\<close>. The total is the \<open>reduce\<close> of the values with \<open>+\<close> from 0.
\<close>

record language_percentage =
  lp_language :: string
  percentage :: js_number
  lp_bytes :: nat

definition calculateLanguagePercentages :: "(string \<times> nat) list \<Rightarrow> language_percentage list" where
  "calculateLanguagePercentages languages =
     (let total = foldl (\<lambda>sum v. js_plus sum (js_of_nat v)) (Num 0) (map snd languages)
      in map (\<lambda>(lang, bytes).
                \<lparr> lp_language = lang,
                  percentage = Math_round (js_times (js_divide (js_of_nat bytes) total) (Num 100)),
                  lp_bytes = bytes \<rparr>)
           languages)"

text \<open>
  The call site: the section is rendered under \<open>Object.keys(languages).length > 0\<close>.
\<close>

definition languages_section :: "(string \<times> nat) list \<Rightarrow> language_percentage list option" where
  "languages_section languages =
     (if length (map fst languages) > 0 then Some (calculateLanguagePercentages languages) else None)"

section \<open>Specification-level notions\<close>

text \<open>
  The distinct values of a list in order of first appearance: each value is kept
  where it first occurs and dropped from the rest.
\<close>

primrec first_appearances :: "'a list \<Rightarrow> 'a list" where
  "first_appearances [] = []"
| "first_appearances (x # xs) = x # filter (\<lambda>y. y \<noteq> x) (first_appearances xs)"

text \<open>
  The fallback of the featured list in the words of the specification: the entries
  that are not forks, in descending order of the push time (a stable sort), the first
  four.
\<close>

definition spec_featured_fallback :: "(string \<Rightarrow> int) \<Rightarrow> repository list \<Rightarrow> repository list" where
  "spec_featured_fallback getTime rs =
     take 4 (sort_key (\<lambda>r. - getTime (pushed_at r)) (filter (\<lambda>r. \<not> fork r) rs))"

text \<open>
  A candidate repository has usable participation data when its statistic is
  answered ok with an owner array that has a positive week.
\<close>

definition has_data :: "(string \<Rightarrow> int list option fetched) \<Rightarrow> repository \<Rightarrow> bool" where
  "has_data part repo = (owner_participation (part (full_name repo)) \<noteq> None)"

text \<open>
  The object of push counts per month that the \<open>forEach\<close> of the fallback builds.
\<close>

definition activityMap_of :: "(repository \<Rightarrow> string) \<Rightarrow> repository list \<Rightarrow> (string \<times> int) list" where
  "activityMap_of key rs = foldl (\<lambda>m repo. count_push (key repo) m) [] rs"

text \<open>
  The monthly buckets in words: the months that have a push, in ascending order, each
  with the number of repositories pushed in it, and of these the latest twelve.
\<close>

definition spec_monthly_buckets :: "(string \<Rightarrow> nat \<times> nat) \<Rightarrow> repository list \<Rightarrow> activity_point list" where
  "spec_monthly_buckets localDate rs =
     (let months = sorted_list_of_set (dateKey localDate ` set rs);
          buckets = map (\<lambda>k. \<lparr> point_name = month_label (split_on CHR ''-'' k),
                                commits = int (length (filter (\<lambda>r. dateKey localDate r = k) rs)),
                                point_date = k \<rparr>) months
      in drop (length buckets - 12) buckets)"

text \<open>
  The candidate that the loops set for an account, under its login.
\<close>

definition entry :: "string \<Rightarrow> account \<Rightarrow> string \<times> similar_user" where
  "entry reason a =
     (acc_login a,
      \<lparr> su_login = acc_login a, su_avatar_url = acc_avatar_url a, su_html_url = acc_html_url a,
        su_name = None, similarity_reason = reason \<rparr>)"

text \<open>
  \<open>if (!map.has(k)) map.set(k, v)\<close> on a map in insertion order.
\<close>

definition insert_absent :: "('k \<times> 'v) list \<Rightarrow> 'k \<times> 'v \<Rightarrow> ('k \<times> 'v) list" where
  "insert_absent m e = (if fst e \<in> fst ` set m then m else m @ [e])"

text \<open>
  What each strategy discovers, in the order of discovery and with the current user left
  out. Strategy 1: the contributors, five per repository, of the first three repositories
  of the language search.
\<close>

definition contributors_of :: "similar_world \<Rightarrow> search_item \<Rightarrow> account list" where
  "contributors_of w repo =
     (case url_response w (contributors_url repo) of
        Throws \<Rightarrow> []
      | Http status contributors \<Rightarrow> if ok status then take 5 contributors else [])"

definition strategy1_found :: "similar_world \<Rightarrow> github_user \<Rightarrow> repository list \<Rightarrow> account list" where
  "strategy1_found w user rs =
     (if truthy (primaryLanguage_of rs) then
        (case search_response w (''language:'' @ the (primaryLanguage_of rs) @ ''+stars:>10'') of
           Throws \<Rightarrow> []
         | Http status body \<Rightarrow>
             if ok status then
               (case body of
                  None \<Rightarrow> []
                | Some items \<Rightarrow>
                    filter (\<lambda>a. acc_login a \<noteq> login user)
                      (concat (map (contributors_of w) (take 3 items))))
             else [])
      else [])"

text \<open>
  Strategy 2: the owners of the repositories of the topic search.
\<close>

definition strategy2_found :: "similar_world \<Rightarrow> github_user \<Rightarrow> repository list \<Rightarrow> account list" where
  "strategy2_found w user rs =
     (if userTopics_of rs \<noteq> [] then
        (case search_response w (''topic:'' @ join ''+'' (take 3 (userTopics_of rs)) @ ''+stars:>5'') of
           Throws \<Rightarrow> []
         | Http status body \<Rightarrow>
             if ok status then
               (case body of
                  None \<Rightarrow> []
                | Some items \<Rightarrow> filter (\<lambda>a. acc_login a \<noteq> login user) (map item_owner items))
             else [])
      else [])"

text \<open>
  Strategy 3: the accounts that the followers of the user follow.
\<close>

definition following_of :: "similar_world \<Rightarrow> account \<Rightarrow> account list" where
  "following_of w follower =
     (case following_response w (acc_login follower) of
        Throws \<Rightarrow> []
      | Http status followerFollowing \<Rightarrow> if ok status then followerFollowing else [])"

definition strategy3_found :: "similar_world \<Rightarrow> github_user \<Rightarrow> account list" where
  "strategy3_found w user =
     (if followers user > 0 then
        (case followers_response w (login user) of
           Throws \<Rightarrow> []
         | Http status fs \<Rightarrow>
             if ok status
             then filter (\<lambda>a. acc_login a \<noteq> login user) (concat (map (following_of w) fs))
             else [])
      else [])"

text \<open>
  The reason string of strategy 1.
\<close>

definition reason1 :: "repository list \<Rightarrow> string" where
  "reason1 rs = ''Also works with '' @ the (primaryLanguage_of rs)"

text \<open>
  Everything discovered in a run, strategy after strategy, as candidates under their
  logins; nothing when the early exit is taken (no language and no topic).
\<close>

definition discovered ::
  "similar_world \<Rightarrow> github_user \<Rightarrow> repository list \<Rightarrow> (string \<times> similar_user) list" where
  "discovered w user rs =
     (if userLanguages_of rs = [] \<and> userTopics_of rs = [] then []
      else map (entry (reason1 rs)) (strategy1_found w user rs)
           @ map (entry ''Works on similar topics'') (strategy2_found w user rs)
           @ map (entry ''Followed by people who follow you'') (strategy3_found w user))"

text \<open>
  The discoveries merged into the map, the first candidate of a login winning.
\<close>

definition merged :: "similar_world \<Rightarrow> github_user \<Rightarrow> repository list \<Rightarrow> (string \<times> similar_user) list" where
  "merged w user rs = foldl insert_absent [] (discovered w user rs)"

section \<open>Sample data\<close>

text \<open>Concrete repositories, users, pinned items and answers, for the closed instances.\<close>

definition sample_repo :: "string \<Rightarrow> bool \<Rightarrow> int \<Rightarrow> string \<Rightarrow> string option \<Rightarrow> repository" where
  "sample_repo nm fk stars pushed lang =
     \<lparr> repo_id = IdNumber 1, name = nm, full_name = ''octocat/'' @ nm,
       html_url = ''https://github.com/octocat/'' @ nm, description = None, fork = fk,
       created_at = ''2020-01-01T00:00:00Z'', updated_at = pushed, pushed_at = pushed,
       homepage = Some ''https://example.org'', repo_size = 1, stargazers_count = stars,
       watchers_count = stars, language = lang, forks_count = 0, open_issues_count = 0,
       license = None, topics = [], visibility = ''public'', default_branch = ''main'',
       owner = \<lparr> owner_login = ''octocat'', owner_id = 1, owner_avatar_url = [],
                 owner_html_url = ''https://github.com/octocat'' \<rparr> \<rparr>"

definition sample_user :: github_user where
  "sample_user = \<lparr> login = ''octocat'', user_name = Some ''The Octocat'', bio = None,
                    public_repos = 2, followers = 3, following = 0 \<rparr>"

definition sample_pin :: "string \<Rightarrow> pinned_item" where
  "sample_pin nm =
     \<lparr> pin_name = nm, pin_description = None, pin_url = ''https://github.com/octocat/'' @ nm,
       stargazerCount = 7, forkCount = 0, primaryLanguage = Some (''Ruby'', None),
       repositoryTopics = [], pin_owner_login = ''octocat'', pin_owner_avatarUrl = [] \<rparr>"

definition sample_world ::
  "repos_payload fetched \<Rightarrow> pinned_item option list option fetched \<Rightarrow> profile_world" where
  "sample_world rr gr =
     \<lparr> stored_token = None,
       process_env = \<lparr> GITHUB_ACCESS_TOKEN = None, NEXT_PUBLIC_GITHUB_ACCESS_TOKEN = None \<rparr>,
       user_response = Http 200 sample_user, repos_response = rr, graphql_response = gr,
       clock = ''2026-01-01T00:00:00.000Z'' \<rparr>"

text \<open>\<open>new Date(s).getTime()\<close> on the two sample dates.\<close>

definition sample_getTime :: "string \<Rightarrow> int" where
  "sample_getTime s = (if s = ''2024-02-01T00:00:00Z'' then 1706745600000
                       else if s = ''2024-01-01T00:00:00Z'' then 1704067200000 else 0)"

definition seven_languages :: "repository list" where
  "seven_languages =
     map (\<lambda>l. sample_repo ''r'' False 0 ''2024-01-01T00:00:00Z'' l)
       [Some ''Go'', None, Some ''Rust'', Some ''Go'', Some ''C'', Some ''Java'', Some ''Ruby'',
        Some ''Perl'', Some ''Lua'']"

definition two_repos :: "repository list" where
  "two_repos = [sample_repo ''recent'' False 1 ''2024-02-01T00:00:00Z'' None,
                sample_repo ''starred'' False 5 ''2024-01-01T00:00:00Z'' None]"

definition sample_activity_world ::
  "repository list \<Rightarrow> (string \<Rightarrow> int list option fetched) \<Rightarrow> activity_world" where
  "sample_activity_world rs part =
     \<lparr> activity_token = None,
       activity_env = \<lparr> GITHUB_ACCESS_TOKEN = None, NEXT_PUBLIC_GITHUB_ACCESS_TOKEN = None \<rparr>,
       recent_repos_response = Http 200 (RepoArray rs),
       participation_response = part,
       clock_localDate = (\<lambda>s. if s = ''2024-02-01T00:00:00Z'' then (2024, 1) else (2024, 0)),
       clock_weeksAgo = (\<lambda>n. if n < 3 then [''11/3'', ''10/27'', ''10/20''] ! n else []) \<rparr>"

definition sample_participation :: "string \<Rightarrow> int list option fetched" where
  "sample_participation full =
     (if full = ''octocat/starred'' then Http 200 (Some [0, 2, 1]) else Http 202 None)"

definition forked_repo :: repository where
  "forked_repo = sample_repo ''forked'' True 9 ''2024-02-01T00:00:00Z'' None"

definition acct :: "string \<Rightarrow> account" where
  "acct l = \<lparr> acc_login = l, acc_avatar_url = [], acc_html_url = ''https://github.com/'' @ l \<rparr>"

definition sample_similar_world :: similar_world where
  "sample_similar_world =
     \<lparr> search_response =
         (\<lambda>q. if q = ''language:Go+stars:>10''
              then Http 200 (Some [\<lparr> contributors_url = ''u1'', item_owner = acct ''o1'' \<rparr>,
                                   \<lparr> contributors_url = ''u2'', item_owner = acct ''o2'' \<rparr>])
              else Http 200 (Some [\<lparr> contributors_url = ''u3'', item_owner = acct ''g'' \<rparr>,
                                   \<lparr> contributors_url = ''u4'', item_owner = acct ''a'' \<rparr>])),
       url_response =
         (\<lambda>u. if u = ''u1'' then Http 200 (map acct [''a'', ''b'', ''octocat'', ''c''])
              else Http 200 (map acct [''b'', ''d'', ''e'', ''f''])),
       followers_response = (\<lambda>l. Http 200 [acct ''x'']),
       following_response = (\<lambda>l. Http 200 [acct ''g'', acct ''a'']),
       details_response =
         (\<lambda>l. if l = ''a'' then Http 200 (Some ''Alice'')
              else if l = ''b'' then Throws else Http 404 None) \<rparr>"

definition go_repos :: "repository list" where
  "go_repos = [(sample_repo ''tool'' False 1 ''2024-02-01T00:00:00Z'' (Some ''Go'')) \<lparr> topics := [''cli''] \<rparr>]"

definition candidate :: "string \<Rightarrow> string option \<Rightarrow> string \<Rightarrow> similar_user" where
  "candidate l n r =
     \<lparr> su_login = l, su_avatar_url = [], su_html_url = ''https://github.com/'' @ l,
       su_name = n, similarity_reason = r \<rparr>"

definition sample_result :: "similar_user list" where
  "sample_result =
     [candidate ''a'' (Some ''Alice'') ''Also works with Go'',
      candidate ''b'' None ''Also works with Go'',
      candidate ''c'' None ''Also works with Go'',
      candidate ''d'' None ''Also works with Go'',
      candidate ''e'' None ''Also works with Go'',
      candidate ''f'' None ''Also works with Go'']"

definition six_found :: "(string \<times> similar_user) list" where
  "six_found =
     [(''a'', candidate ''a'' None ''Also works with Go''),
      (''b'', candidate ''b'' None ''Also works with Go''),
      (''c'', candidate ''c'' None ''Also works with Go''),
      (''d'', candidate ''d'' None ''Also works with Go''),
      (''e'', candidate ''e'' None ''Also works with Go''),
      (''f'', candidate ''f'' None ''Also works with Go'')]"

definition no_participation :: "string \<Rightarrow> int list option fetched" where
  "no_participation full = Throws"

section \<open>Credential resolver: properties\<close>

lemma truthy_simps [simp]:
  "truthy None = False"
  "truthy (Some s) = (s \<noteq> [])"
  by (simp_all add: truthy_def)




section \<open>Sorting and sets\<close>

lemma js_insert_insort_key:
  assumes "\<And>a b. (cmp a b \<le> 0) = (f a \<le> f b)"
  shows "js_insert cmp x ys = insort_key f x ys"
  by (induction ys) (simp_all add: assms)

lemma js_sort_sort_key:
  assumes "\<And>a b. (cmp a b \<le> 0) = (f a \<le> f b)"
  shows "js_sort cmp xs = sort_key f xs"
  by (induction xs) (simp_all add: js_sort_def js_insert_insort_key [of cmp f, OF assms])

lemma most_active_sort_key:
  "most_active getTime rs =
     take 4 (sort_key (\<lambda>r. - getTime (pushed_at r)) (filter (\<lambda>r. \<not> fork r) rs))"
  unfolding most_active_def
  by (subst js_sort_sort_key [where f = "\<lambda>r. - getTime (pushed_at r)"]) simp_all

lemma fallbackRepos_sort_key:
  "fallbackRepos rs =
     take 6 (sort_key (\<lambda>r. - stargazers_count r) (filter (\<lambda>r. \<not> fork r) rs))"
  unfolding fallbackRepos_def
  by (subst js_sort_sort_key [where f = "\<lambda>r. - stargazers_count r"]) simp_all

lemma foldl_set_add:
  "foldl (\<lambda>s x. set_add x s) acc xs = acc @ filter (\<lambda>y. y \<notin> set acc) (first_appearances xs)"
proof (induction xs arbitrary: acc)
  case Nil
  then show ?case by simp
next
  case (Cons x xs)
  show ?case
  proof (cases "x \<in> set acc")
    case True
    then have "filter (\<lambda>y. y \<notin> set acc) (filter (\<lambda>y. y \<noteq> x) (first_appearances xs))
             = filter (\<lambda>y. y \<notin> set acc) (first_appearances xs)"
      by (auto intro: filter_cong)
    with True Cons.IH [of acc] show ?thesis by (simp add: set_add_def)
  next
    case False
    have "filter (\<lambda>y. y \<notin> set (acc @ [x])) (first_appearances xs)
        = filter (\<lambda>y. y \<notin> set acc) (filter (\<lambda>y. y \<noteq> x) (first_appearances xs))"
      by (auto intro: filter_cong)
    with False Cons.IH [of "acc @ [x]"] show ?thesis by (simp add: set_add_def)
  qed
qed

lemma foldl_languages:
  "foldl (\<lambda>languages repo.
            if truthy (language repo) then set_add (the (language repo)) languages else languages)
     acc rs
   = foldl (\<lambda>s x. set_add x s) acc (map (\<lambda>r. the (language r)) (filter (\<lambda>r. truthy (language r)) rs))"
  by (induction rs arbitrary: acc) simp_all

lemma distinct_first_appearances: "distinct (first_appearances xs)"
  by (induction xs) auto

lemma set_first_appearances: "set (first_appearances xs) = set xs"
  by (induction xs) auto

lemma extract_skills_spec:
  "extract_skills rs =
     take 6 (first_appearances (map (\<lambda>r. the (language r)) (filter (\<lambda>r. truthy (language r)) rs)))"
  by (simp add: extract_skills_def foldl_languages foldl_set_add)

section \<open>The profile page: properties\<close>

lemma pinned_stage_array:
  "\<exists>p. pinned_stage now (RepoArray rs) res = Some p"
  by (cases res) (auto simp: pinned_stage_def Let_def split: option.splits)

lemma fetchGitHubProfile_success:
  assumes "username \<noteq> []" "user_response w = Http s u" "ok s"
    "repos_response w = Http s2 (RepoArray rs)"
  shows "snd (fetchGitHubProfile w username) =
           \<lparr> userData = Some u, repos = rs,
             pinnedRepos = the (pinned_stage (clock w) (RepoArray rs) (graphql_response w)),
             skills = extract_skills rs, error = None, loading = False \<rparr>"
proof -
  obtain p where p: "pinned_stage (clock w) (RepoArray rs) (graphql_response w) = Some p"
    using pinned_stage_array by blast
  show ?thesis using assms p by (simp add: fetchGitHubProfile_def Let_def)
qed

lemma fetchGitHubProfile_trace:
  assumes "username \<noteq> []" "user_response w = Http s u" "ok s"
    "repos_response w = Http s2 payload"
  shows "fst (fetchGitHubProfile w username) =
           [GetUser username (createGitHubHeaders (ClientSide (stored_token w)) (process_env w)),
            GetUserRepos username (createGitHubHeaders (ClientSide (stored_token w)) (process_env w)),
            PostGraphQL username
              (''Bearer '' @ (case js_or (stored_token w) (NEXT_PUBLIC_GITHUB_ACCESS_TOKEN (process_env w))
                              of None \<Rightarrow> ''undefined'' | Some t \<Rightarrow> t))]"
  using assms
  by (simp add: fetchGitHubProfile_def Let_def split: option.splits repos_payload.splits)

text \<open>
  Claim C3. When the profile request is answered with a status that is not ok (404 among
  them), the run ends in the failure \<open>User not found\<close>, the page renders the not-found view,
  and the only request issued is the profile request: no repository list is fetched.
\<close>

theorem profile_not_found_stops:
  assumes "username \<noteq> []" and "user_response w = Http status u" and "\<not> ok status"
  shows "fetchGitHubProfile w username =
           ([GetUser username (createGitHubHeaders (ClientSide (stored_token w)) (process_env w))],
            failed (UserNotFound status))
         \<and> render getTime (snd (fetchGitHubProfile w username)) = ProfileNotFoundView
         \<and> (\<forall>r \<in> set (fst (fetchGitHubProfile w username)). \<forall>n h. r \<noteq> GetUserRepos n h)"
  using assms by (simp add: fetchGitHubProfile_def Let_def failed_def render_def)

theorem profile_not_found_stops_witness:
  "fetchGitHubProfile ((sample_world Throws Throws) \<lparr> user_response := Http 404 sample_user \<rparr>) ''nobody''
     = ([GetUser ''nobody'' None], failed (UserNotFound 404))
   \<and> render sample_getTime
       (snd (fetchGitHubProfile ((sample_world Throws Throws) \<lparr> user_response := Http 404 sample_user \<rparr>) ''nobody''))
     = ProfileNotFoundView"
proof -
  let ?w = "(sample_world Throws Throws) \<lparr> user_response := Http 404 sample_user \<rparr>"
  have h1: "''nobody'' \<noteq> []" by simp
  have h2: "user_response ?w = Http 404 sample_user" by simp
  have h3: "\<not> ok 404" by (simp add: ok_def)
  have h4: "createGitHubHeaders (ClientSide (stored_token ?w)) (process_env ?w) = None"
    by (simp add: sample_world_def createGitHubHeaders_def githubToken_getGitHubToken_def)
  from profile_not_found_stops [OF h1 h2 h3, of sample_getTime] show ?thesis
    unfolding h4 by blast
qed

lemma map_filter_truthy:
  assumes "\<forall>r \<in> set rs. language r \<noteq> Some []"
  shows "map (\<lambda>r. the (language r)) (filter (\<lambda>r. truthy (language r)) rs)
       = List.map_filter language rs"
proof -
  have "filter (\<lambda>r. truthy (language r)) rs = filter (\<lambda>r. language r \<noteq> None) rs"
    using assms by (intro filter_cong) (auto simp: truthy_def split: option.splits)
  then show ?thesis by (simp add: List.map_filter_def comp_def)
qed

text \<open>
  Claim C5, as amended. For every repository list the skills are the distinct truthy
  language values (the non-null ones, when no language is the empty string) in order of
  first appearance, cut to the first six: no entry is repeated and there are at most six.
  An empty repository list gives an empty skills list and no failure. When the
  repository request is answered with something that is not a list, the run ends in
  the error state (the skills are never set).
\<close>

theorem skills_distinct_first_six:
  "extract_skills rs =
      take 6 (first_appearances
                (map (\<lambda>r. the (language r)) (filter (\<lambda>r. truthy (language r)) rs)))
   \<and> ((\<forall>r \<in> set rs. language r \<noteq> Some []) \<longrightarrow>
        extract_skills rs = take 6 (first_appearances (List.map_filter language rs)))
   \<and> distinct (extract_skills rs)
   \<and> length (extract_skills rs) \<le> 6
   \<and> extract_skills [] = []
   \<and> (username \<noteq> [] \<and> user_response w = Http s u \<and> ok s
        \<and> repos_response w = Http s2 (RepoArray rs) \<longrightarrow>
        skills (snd (fetchGitHubProfile w username)) = extract_skills rs
        \<and> error (snd (fetchGitHubProfile w username)) = None)
   \<and> (username \<noteq> [] \<and> user_response w = Http s u \<and> ok s
        \<and> repos_response w = Http s2 NotArray \<longrightarrow>
        snd (fetchGitHubProfile w username) = failed TypeError)"
proof -
  have a: "extract_skills rs =
      take 6 (first_appearances
                (map (\<lambda>r. the (language r)) (filter (\<lambda>r. truthy (language r)) rs)))"
    by (rule extract_skills_spec)
  have b: "(\<forall>r \<in> set rs. language r \<noteq> Some []) \<longrightarrow>
        extract_skills rs = take 6 (first_appearances (List.map_filter language rs))"
    using a map_filter_truthy by metis
  have c: "distinct (extract_skills rs)"
    unfolding a by (rule distinct_take) (rule distinct_first_appearances)
  have d: "length (extract_skills rs) \<le> 6" unfolding a by simp
  have e: "extract_skills [] = []" by (simp add: extract_skills_def)
  have f: "username \<noteq> [] \<and> user_response w = Http s u \<and> ok s
        \<and> repos_response w = Http s2 (RepoArray rs) \<longrightarrow>
        skills (snd (fetchGitHubProfile w username)) = extract_skills rs
        \<and> error (snd (fetchGitHubProfile w username)) = None"
    using fetchGitHubProfile_success [of username w s u s2 rs] by simp
  have g: "username \<noteq> [] \<and> user_response w = Http s u \<and> ok s
        \<and> repos_response w = Http s2 NotArray \<longrightarrow>
        snd (fetchGitHubProfile w username) = failed TypeError"
    by (simp add: fetchGitHubProfile_def Let_def split: option.splits)
  from a b c d e f g show ?thesis by blast
qed

theorem skills_distinct_first_six_witness:
  "extract_skills seven_languages = [''Go'', ''Rust'', ''C'', ''Java'', ''Ruby'', ''Perl'']
   \<and> skills (snd (fetchGitHubProfile (sample_world (Http 200 (RepoArray [])) (Http 200 (Some []))) ''octocat'')) = []
   \<and> error (snd (fetchGitHubProfile (sample_world (Http 200 (RepoArray [])) (Http 200 (Some []))) ''octocat'')) = None
   \<and> snd (fetchGitHubProfile (sample_world (Http 403 NotArray) (Http 200 (Some []))) ''octocat'')
      = failed TypeError"
proof -
  have h: "\<forall>r \<in> set seven_languages. language r \<noteq> Some []"
    by (simp add: seven_languages_def sample_repo_def)
  have m: "List.map_filter language seven_languages
         = [''Go'', ''Rust'', ''Go'', ''C'', ''Java'', ''Ruby'', ''Perl'', ''Lua'']"
    by (simp add: seven_languages_def sample_repo_def List.map_filter_def)
  have k: "''octocat'' \<noteq> [] \<and> ok 200" by (simp add: ok_def)
  have e0: "extract_skills seven_languages
           = take 6 (first_appearances (List.map_filter language seven_languages))"
    using skills_distinct_first_six [of seven_languages] h by blast
  have e: "extract_skills seven_languages = [''Go'', ''Rust'', ''C'', ''Java'', ''Ruby'', ''Perl'']"
    unfolding e0 m by simp
  have r1: "skills (snd (fetchGitHubProfile (sample_world (Http 200 (RepoArray [])) (Http 200 (Some []))) ''octocat'')) = []
   \<and> error (snd (fetchGitHubProfile (sample_world (Http 200 (RepoArray [])) (Http 200 (Some []))) ''octocat'')) = None"
    using skills_distinct_first_six
      [of "[]" "''octocat''" "sample_world (Http 200 (RepoArray [])) (Http 200 (Some []))" 200 sample_user 200] k
    by (simp add: sample_world_def)
  have r2: "snd (fetchGitHubProfile (sample_world (Http 403 NotArray) (Http 200 (Some []))) ''octocat'')
      = failed TypeError"
    using skills_distinct_first_six
      [of "[]" "''octocat''" "sample_world (Http 403 NotArray) (Http 200 (Some []))" 200 sample_user 403] k
    by (simp add: sample_world_def)
  from e r1 r2 show ?thesis by blast
qed

text \<open>
  A repository request answered with an error object instead of a list: the run fails
  and the page renders the not-found view.
\<close>

theorem missing_repository_list_counterexample:
  "error (snd (fetchGitHubProfile (sample_world (Http 403 NotArray) (Http 200 (Some []))) ''octocat''))
     = Some TypeError
   \<and> render sample_getTime
        (snd (fetchGitHubProfile (sample_world (Http 403 NotArray) (Http 200 (Some []))) ''octocat''))
     = ProfileNotFoundView"
  by (simp add: fetchGitHubProfile_def sample_world_def Let_def ok_def pinned_stage_def
      formattedPinnedRepos_def failed_def render_def)

lemma find_no_match: "x \<notin> f ` set xs \<Longrightarrow> find (\<lambda>y. f y = x) xs = None"
  by (induction xs) auto

lemma formatPinnedRepo_unmatched:
  assumes "pin_name item \<notin> name ` set rs"
  shows "homepage (formatPinnedRepo now rs item) = None"
    and "created_at (formatPinnedRepo now rs item) = now"
    and "updated_at (formatPinnedRepo now rs item) = now"
    and "pushed_at (formatPinnedRepo now rs item) = now"
  using find_no_match [OF assms]
  by (simp_all add: formatPinnedRepo_def Let_def js_or_def str_or_def)

lemma formattedPinnedRepos_wellformed:
  "formattedPinnedRepos now (RepoArray rs) (map Some items) = Some (map (formatPinnedRepo now rs) items)"
  by (auto simp: formattedPinnedRepos_def comp_def)

lemma pinned_stage_wellformed:
  "pinned_stage now (RepoArray rs) (Http s (Some (map Some items))) = Some (map (formatPinnedRepo now rs) items)"
  by (simp add: pinned_stage_def Let_def formattedPinnedRepos_wellformed)

text \<open>
  Claim C6. In a run whose GraphQL answer carries well-formed pinned items, an item
  whose name matches no repository of the REST list (exact comparison of the names)
  becomes a featured entry with an absent homepage and the current time as its three
  timestamps, and the run as a whole succeeds: no error is set and every item has its
  entry.
\<close>

theorem pinned_without_rest_match:
  assumes "username \<noteq> []" and "user_response w = Http s u" and "ok s"
    and "repos_response w = Http s2 (RepoArray rs)"
    and "graphql_response w = Http s3 (Some (map Some items))"
    and "i < length items" and "pin_name (items ! i) \<notin> name ` set rs"
  shows "error (snd (fetchGitHubProfile w username)) = None
       \<and> pinnedRepos (snd (fetchGitHubProfile w username)) = map (formatPinnedRepo (clock w) rs) items
       \<and> name (pinnedRepos (snd (fetchGitHubProfile w username)) ! i) = pin_name (items ! i)
       \<and> homepage (pinnedRepos (snd (fetchGitHubProfile w username)) ! i) = None
       \<and> created_at (pinnedRepos (snd (fetchGitHubProfile w username)) ! i) = clock w
       \<and> updated_at (pinnedRepos (snd (fetchGitHubProfile w username)) ! i) = clock w
       \<and> pushed_at (pinnedRepos (snd (fetchGitHubProfile w username)) ! i) = clock w"
proof -
  have st: "snd (fetchGitHubProfile w username) =
           \<lparr> userData = Some u, repos = rs,
             pinnedRepos = map (formatPinnedRepo (clock w) rs) items,
             skills = extract_skills rs, error = None, loading = False \<rparr>"
    using fetchGitHubProfile_success [OF assms(1-4)] assms(5)
    by (simp add: pinned_stage_wellformed)
  have nm: "name (formatPinnedRepo (clock w) rs (items ! i)) = pin_name (items ! i)"
    by (simp add: formatPinnedRepo_def Let_def)
  show ?thesis
    unfolding st using assms(6) nm formatPinnedRepo_unmatched [OF assms(7), of "clock w"]
    by simp
qed

theorem pinned_without_rest_match_witness:
  "pinnedRepos (snd (fetchGitHubProfile
       (sample_world (Http 200 (RepoArray [sample_repo ''hello'' False 1 ''2024-01-01T00:00:00Z'' None]))
                     (Http 200 (Some (map Some [sample_pin ''hello'', sample_pin ''gone'']))))
       ''octocat''))
     = map (formatPinnedRepo ''2026-01-01T00:00:00.000Z''
              [sample_repo ''hello'' False 1 ''2024-01-01T00:00:00Z'' None])
         [sample_pin ''hello'', sample_pin ''gone'']
   \<and> homepage (pinnedRepos (snd (fetchGitHubProfile
       (sample_world (Http 200 (RepoArray [sample_repo ''hello'' False 1 ''2024-01-01T00:00:00Z'' None]))
                     (Http 200 (Some (map Some [sample_pin ''hello'', sample_pin ''gone'']))))
       ''octocat'')) ! 1) = None
   \<and> pushed_at (pinnedRepos (snd (fetchGitHubProfile
       (sample_world (Http 200 (RepoArray [sample_repo ''hello'' False 1 ''2024-01-01T00:00:00Z'' None]))
                     (Http 200 (Some (map Some [sample_pin ''hello'', sample_pin ''gone'']))))
       ''octocat'')) ! 1) = ''2026-01-01T00:00:00.000Z''"
proof -
  let ?rs = "[sample_repo ''hello'' False 1 ''2024-01-01T00:00:00Z'' None]"
  let ?items = "[sample_pin ''hello'', sample_pin ''gone'']"
  let ?w = "sample_world (Http 200 (RepoArray ?rs)) (Http 200 (Some (map Some ?items)))"
  have h1: "''octocat'' \<noteq> []" by simp
  have h2: "user_response ?w = Http 200 sample_user" by (simp add: sample_world_def)
  have h3: "ok 200" by (simp add: ok_def)
  have h4: "repos_response ?w = Http 200 (RepoArray ?rs)" by (simp add: sample_world_def)
  have h5: "graphql_response ?w = Http 200 (Some (map Some ?items))" by (simp add: sample_world_def)
  have h6: "1 < length ?items" by simp
  have h7: "pin_name (?items ! 1) \<notin> name ` set ?rs" by (simp add: sample_pin_def sample_repo_def)
  have c: "clock ?w = ''2026-01-01T00:00:00.000Z''" by (simp add: sample_world_def)
  from pinned_without_rest_match [OF h1 h2 h3 h4 h5 h6 h7] show ?thesis
    unfolding c by blast
qed

lemma sort_key_Nil_iff: "sort_key f xs = [] \<longleftrightarrow> xs = []"
  by (metis length_0_conv length_sort)

lemma fallbackRepos_Nil_iff: "fallbackRepos rs = [] \<longleftrightarrow> filter (\<lambda>r. \<not> fork r) rs = []"
  by (simp add: fallbackRepos_sort_key sort_key_Nil_iff)

lemma render_success:
  "render getTime \<lparr> userData = Some u, repos = rs, pinnedRepos = p, skills = sk, error = None,
                    loading = False \<rparr>
   = ProfileView u sk (if rs = [] then NoRepositories
                       else if p = [] then MostActive (most_active getTime rs) else Pinned p)"
  by (simp add: render_def)

lemma pinned_stage_empty:
  "body = None \<or> body = Some [] \<Longrightarrow> pinned_stage now (RepoArray rs) (Http s body) = Some []"
  by (auto simp: pinned_stage_def formattedPinnedRepos_def)

lemma pinned_stage_throws:
  "pinned_stage now (RepoArray rs) Throws = Some (fallbackRepos rs)"
  by (simp add: pinned_stage_def)

text \<open>
  Claim C2, as amended. In a run that reaches the GraphQL stage with a repository list:
  whenever the stage leaves no pinned entry, the featured list is the repository list
  without forks, in descending order of the push time (stable), cut to four; the stage
  leaves no pinned entry when the GraphQL request is answered without nodes or with an
  empty node list (this is also how a refused credential ends). When the GraphQL
  request is rejected, the catch branch fills the pinned entries itself, and the
  featured list is the repository list without forks in descending order of stars, cut
  to six.
\<close>

theorem featured_fallback_without_pinned:
  assumes "username \<noteq> []" and "user_response w = Http s u" and "ok s"
    and "repos_response w = Http s2 (RepoArray rs)"
  shows "(pinnedRepos (snd (fetchGitHubProfile w username)) = [] \<longrightarrow>
            featured_list (render getTime (snd (fetchGitHubProfile w username)))
              = spec_featured_fallback getTime rs)
       \<and> (graphql_response w = Http gstatus None \<or> graphql_response w = Http gstatus (Some []) \<longrightarrow>
            pinnedRepos (snd (fetchGitHubProfile w username)) = [])
       \<and> (graphql_response w = Throws \<longrightarrow>
            featured_list (render getTime (snd (fetchGitHubProfile w username)))
              = take 6 (sort_key (\<lambda>r. - stargazers_count r) (filter (\<lambda>r. \<not> fork r) rs)))"
proof -
  let ?st = "snd (fetchGitHubProfile w username)"
  let ?p = "the (pinned_stage (clock w) (RepoArray rs) (graphql_response w))"
  have st: "?st = \<lparr> userData = Some u, repos = rs, pinnedRepos = ?p,
                     skills = extract_skills rs, error = None, loading = False \<rparr>"
    by (rule fetchGitHubProfile_success [OF assms])
  have a: "pinnedRepos ?st = [] \<longrightarrow>
             featured_list (render getTime ?st) = spec_featured_fallback getTime rs"
    unfolding st render_success
    by (simp add: most_active_sort_key spec_featured_fallback_def)
  have b: "graphql_response w = Http gstatus None \<or> graphql_response w = Http gstatus (Some []) \<longrightarrow>
             pinnedRepos ?st = []"
    unfolding st using pinned_stage_empty [of _ "clock w" rs gstatus] by auto
  have c: "graphql_response w = Throws \<longrightarrow>
             featured_list (render getTime ?st)
               = take 6 (sort_key (\<lambda>r. - stargazers_count r) (filter (\<lambda>r. \<not> fork r) rs))"
  proof
    assume t: "graphql_response w = Throws"
    have p: "?p = fallbackRepos rs" by (simp add: t pinned_stage_throws)
    show "featured_list (render getTime ?st)
               = take 6 (sort_key (\<lambda>r. - stargazers_count r) (filter (\<lambda>r. \<not> fork r) rs))"
    proof (cases "filter (\<lambda>r. \<not> fork r) rs = []")
      case True
      then have "fallbackRepos rs = []" by (simp add: fallbackRepos_Nil_iff)
      with True show ?thesis unfolding st render_success p
        by (simp add: most_active_sort_key)
    next
      case False
      then have "fallbackRepos rs \<noteq> []" by (simp add: fallbackRepos_Nil_iff)
      moreover from False have "rs \<noteq> []" by auto
      ultimately show ?thesis unfolding st render_success p
        by (simp add: fallbackRepos_sort_key)
    qed
  qed
  from a b c show ?thesis by blast
qed

lemma sample_getTime_values:
  "sample_getTime ''2024-02-01T00:00:00Z'' = 1706745600000"
  "sample_getTime ''2024-01-01T00:00:00Z'' = 1704067200000"
  by (simp_all add: sample_getTime_def)

lemma two_repos_fields:
  "map fork two_repos = [False, False]"
  "map pushed_at two_repos = [''2024-02-01T00:00:00Z'', ''2024-01-01T00:00:00Z'']"
  "map stargazers_count two_repos = [1, 5]"
  "map name two_repos = [''recent'', ''starred'']"
  by (simp_all add: two_repos_def sample_repo_def)

lemma spec_two_repos: "spec_featured_fallback sample_getTime two_repos = two_repos"
  by (simp add: spec_featured_fallback_def two_repos_def sample_repo_def sample_getTime_values)

lemma stars_two_repos:
  "take 6 (sort_key (\<lambda>r. - stargazers_count r) (filter (\<lambda>r. \<not> fork r) two_repos)) = rev two_repos"
  by (simp add: two_repos_def sample_repo_def)

theorem featured_fallback_without_pinned_witness:
  "featured_list (render sample_getTime
       (snd (fetchGitHubProfile (sample_world (Http 200 (RepoArray two_repos)) (Http 401 None)) ''octocat'')))
     = two_repos
   \<and> featured_list (render sample_getTime
       (snd (fetchGitHubProfile (sample_world (Http 200 (RepoArray two_repos)) Throws) ''octocat'')))
     = rev two_repos"
proof -
  let ?w = "\<lambda>g. sample_world (Http 200 (RepoArray two_repos)) g"
  have h1: "''octocat'' \<noteq> []" by simp
  have h2: "\<And>g. user_response (?w g) = Http 200 sample_user" by (simp add: sample_world_def)
  have h3: "ok 200" by (simp add: ok_def)
  have h4: "\<And>g. repos_response (?w g) = Http 200 (RepoArray two_repos)" by (simp add: sample_world_def)
  have g1: "graphql_response (?w (Http 401 None)) = Http 401 None" by (simp add: sample_world_def)
  have g2: "graphql_response (?w Throws) = Throws" by (simp add: sample_world_def)
  from featured_fallback_without_pinned [OF h1 h2 h3 h4, where g1 = "Http 401 None" and gstatus = 401 and getTime = sample_getTime] g1
  have a: "featured_list (render sample_getTime (snd (fetchGitHubProfile (?w (Http 401 None)) ''octocat'')))
             = spec_featured_fallback sample_getTime two_repos"
    by blast
  from featured_fallback_without_pinned [OF h1 h2 h3 h4, where g1 = Throws and gstatus = 401 and getTime = sample_getTime] g2
  have b: "featured_list (render sample_getTime (snd (fetchGitHubProfile (?w Throws) ''octocat'')))
             = take 6 (sort_key (\<lambda>r. - stargazers_count r) (filter (\<lambda>r. \<not> fork r) two_repos))"
    by blast
  from a b show ?thesis unfolding spec_two_repos stars_two_repos by blast
qed

text \<open>
  A rejected GraphQL request with two repositories, the less starred one pushed last:
  the featured list starts with the more starred one, not with the most recently pushed.
\<close>

theorem featured_fallback_counterexample:
  "featured_list (render sample_getTime
       (snd (fetchGitHubProfile (sample_world (Http 200 (RepoArray two_repos)) Throws) ''octocat'')))
     \<noteq> spec_featured_fallback sample_getTime two_repos"
proof -
  have l: "featured_list (render sample_getTime
       (snd (fetchGitHubProfile (sample_world (Http 200 (RepoArray two_repos)) Throws) ''octocat'')))
     = rev two_repos"
    by (simp add: fetchGitHubProfile_def sample_world_def Let_def ok_def pinned_stage_throws
        render_def fallbackRepos_sort_key stars_two_repos)
  have "rev two_repos \<noteq> two_repos" by (simp add: two_repos_def sample_repo_def)
  with l spec_two_repos show ?thesis by simp
qed

text \<open>
  Claim C1. With no stored token and no token in the environment, the profile page
  still sends the GraphQL request, with the header \<open>Bearer undefined\<close>; the claim says
  that no GraphQL request is sent then.
\<close>

theorem graphql_sent_without_credential:
  "fst (fetchGitHubProfile (sample_world (Http 200 (RepoArray [])) (Http 401 None)) ''octocat'')
     = [GetUser ''octocat'' None, GetUserRepos ''octocat'' None,
        PostGraphQL ''octocat'' ''Bearer undefined'']"
  by (simp add: fetchGitHubProfile_def sample_world_def Let_def ok_def pinned_stage_def
      formattedPinnedRepos_def createGitHubHeaders_def githubToken_getGitHubToken_def js_or_def)

text \<open>
  The pinned-repositories component guards the same request: without a credential it
  sends nothing, with one it sends the request once.
\<close>

lemma fetchPinnedRepos_guard:
  "\<not> truthy (js_or (GITHUB_ACCESS_TOKEN env) token) \<Longrightarrow>
     fst (fetchPinnedRepos env getTime res username rs token) = []"
  by (simp add: fetchPinnedRepos_def Let_def)

lemma fetchPinnedRepos_sends:
  "truthy (js_or (GITHUB_ACCESS_TOKEN env) token) \<Longrightarrow>
     fst (fetchPinnedRepos env getTime res username rs token)
       = [PostGraphQL username (''bearer '' @ the (js_or (GITHUB_ACCESS_TOKEN env) token))]"
  by (simp add: fetchPinnedRepos_def Let_def split: fetched.splits option.splits)

section \<open>Language percentages: properties\<close>

subsection \<open>Rounding to a double\<close>

lemma int_bounds_powi:
  assumes "0 < (p::int)"
  shows "(2::rat) powi (bitlen p - 1) \<le> of_int p" and "of_int p < (2::rat) powi (bitlen p)"
proof -
  from bitlen_bounds [OF assms] have l: "2 ^ nat (bitlen p - 1) \<le> p" and u: "p < 2 ^ nat (bitlen p)"
    by auto
  have b1: "1 \<le> bitlen p" using assms bitlen_eq_zero_iff [of p] bitlen_nonneg [of p] by linarith
  have "(of_int (2 ^ nat (bitlen p - 1)) :: rat) \<le> of_int p" using l by (simp only: of_int_le_iff)
  then show "(2::rat) powi (bitlen p - 1) \<le> of_int p"
    using b1 by (simp add: power_int_def)
  have "(of_int p :: rat) < of_int (2 ^ nat (bitlen p))" using u by (simp only: of_int_less_iff)
  then show "of_int p < (2::rat) powi (bitlen p)"
    using b1 by (simp add: power_int_def)
qed

lemma floor_log2_bounds:
  assumes "0 < a"
  shows "2 powi (floor_log2 a) \<le> a" and "a < 2 powi (floor_log2 a + 1)"
proof -
  obtain p q where pq: "quotient_of a = (p, q)" by (cases "quotient_of a")
  have q: "0 < q" using pq by (rule quotient_of_denom_pos)
  have a: "a = of_int p / of_int q" using pq by (rule quotient_of_div)
  have p: "0 < p" using assms q unfolding a by (simp add: zero_less_divide_iff)
  let ?d = "bitlen p - bitlen q"
  note P = int_bounds_powi [OF p] and Q = int_bounds_powi [OF q]
  have qpos: "(0::rat) < of_int q" using q by simp
  have up: "a < 2 powi (?d + 1)"
  proof -
    have "a < (2::rat) powi (bitlen p) / of_int q"
      unfolding a using P(2) qpos by (simp add: divide_strict_right_mono)
    also have "\<dots> \<le> 2 powi (bitlen p) / 2 powi (bitlen q - 1)"
      using Q(1) qpos by (intro divide_left_mono) (auto intro: mult_pos_pos)
    also have "\<dots> = 2 powi (?d + 1)"
    proof -
      have "?d + 1 = bitlen p - (bitlen q - 1)" by simp
      then show ?thesis by (simp only: power_int_diff [of "2::rat", simplified])
    qed
    finally show ?thesis .
  qed
  have lo: "2 powi (?d - 1) \<le> a"
  proof -
    have "?d - 1 = (bitlen p - 1) - bitlen q" by simp
    then have "(2::rat) powi (?d - 1) = 2 powi (bitlen p - 1) / 2 powi (bitlen q)"
      by (simp only: power_int_diff [of "2::rat", simplified])
    also have "\<dots> \<le> 2 powi (bitlen p - 1) / of_int q"
      using Q(2) qpos by (intro divide_left_mono) (auto intro: mult_pos_pos)
    also have "\<dots> \<le> a"
      unfolding a using P(1) qpos by (simp add: divide_right_mono)
    finally show ?thesis .
  qed
  have fl: "floor_log2 a = (if 2 powi ?d \<le> a then ?d else ?d - 1)"
    by (simp add: floor_log2_def pq Let_def)
  show "2 powi (floor_log2 a) \<le> a" using lo by (simp add: fl)
  show "a < 2 powi (floor_log2 a + 1)" using up by (auto simp: fl not_le)
qed

lemma floor_log2_unique:
  assumes "2 powi k \<le> a" and "a < 2 powi (k + 1)"
  shows "floor_log2 a = k"
proof -
  have a: "0 < a" using assms(1) by (rule less_le_trans [rotated]) simp
  note B = floor_log2_bounds [OF a]
  have "\<not> floor_log2 a < k"
  proof
    assume "floor_log2 a < k"
    then have "(2::rat) powi (floor_log2 a + 1) \<le> 2 powi k"
      by (intro power_int_increasing) auto
    with B(2) assms(1) show False by simp
  qed
  moreover have "\<not> k < floor_log2 a"
  proof
    assume "k < floor_log2 a"
    then have "(2::rat) powi (k + 1) \<le> 2 powi (floor_log2 a)"
      by (intro power_int_increasing) auto
    with B(1) assms(2) show False by simp
  qed
  ultimately show ?thesis by simp
qed


lemma round_half_even_near:
  assumes "\<bar>x - of_int m\<bar> < 1 / 2"
  shows "round_half_even x = m"
proof (cases "of_int m \<le> x")
  case True
  with assms have "\<lfloor>x\<rfloor> = m" by (simp add: floor_eq_iff abs_less_iff)
  with assms True show ?thesis by (simp add: round_half_even_def abs_less_iff)
next
  case False
  with assms have f: "\<lfloor>x\<rfloor> = m - 1" by (simp add: floor_eq_iff abs_less_iff)
  from assms False have "1 / 2 < x - of_int (m - 1)" by (simp add: abs_less_iff)
  then show ?thesis unfolding round_half_even_def f Let_def by simp
qed

lemma round_half_even_of_int: "round_half_even (of_int m) = m"
  by (rule round_half_even_near) simp

lemma to_double_pos:
  assumes lo: "2 powi 52 \<le> a / 2 powi e" and hi: "a / 2 powi e < 2 powi 53"
    and e: "- 1074 \<le> e" "e \<le> 970"
    and m: "round_half_even (a / 2 powi e) = m"
  shows "to_double a = Num (of_int m * 2 powi e)"
proof -
  have pe: "(0::rat) < 2 powi e" by simp
  have lo': "2 powi (e + 52) \<le> a"
    using lo pe by (simp add: power_int_add pos_le_divide_eq mult.commute)
  have hi': "a < 2 powi (e + 52 + 1)"
  proof -
    have "a < 2 powi 53 * 2 powi e" using hi pe by (simp add: pos_divide_less_eq)
    also have "\<dots> = 2 powi (e + 52 + 1)"
      by (simp add: power_int_add)
    finally show ?thesis .
  qed
  have a: "0 < a" using lo' by (rule less_le_trans [rotated]) simp
  have fl: "floor_log2 a = e + 52" using lo' hi' by (rule floor_log2_unique)
  have m53: "m \<le> 2 ^ 53"
  proof -
    have "a / 2 powi e < 2 ^ 53" using hi by simp
    then have "\<lfloor>a / 2 powi e\<rfloor> < 2 ^ 53"
      by (metis floor_less_iff of_int_numeral of_int_power)
    then show ?thesis
      using m by (auto simp: round_half_even_def Let_def split: if_splits)
  qed
  have "(of_int m :: rat) \<le> of_int (2 ^ 53)" using m53 by (simp only: of_int_le_iff)
  then have "(of_int m :: rat) \<le> 2 ^ 53" by simp
  then have "of_int m * 2 powi e \<le> (2 ^ 53 :: rat) * 2 powi e"
    using pe by (intro mult_right_mono) simp_all
  also have "\<dots> = 2 powi (e + 53)" by (simp add: power_int_add)
  also have "\<dots> < (2::rat) powi 1024" using e by (intro power_int_strict_increasing) auto
  finally have v: "\<not> (2::rat) powi 1024 \<le> of_int m * 2 powi e" by (simp only: not_le)
  have mx: "max (e + 52 - 52) (- 1074) = e" using e by simp
  have nz: "a \<noteq> 0" "\<bar>a\<bar> = a" using a by simp_all
  show ?thesis
    unfolding to_double_def Let_def nz(2) fl mx m
    using a v by (simp only: nz(1) if_False if_True)
qed

lemma to_double_scaled:
  assumes "2 ^ 52 \<le> a * 2 ^ k" and "a * 2 ^ k < 2 ^ 53" and "k \<le> 1074"
    and "\<bar>a * 2 ^ k - of_int m\<bar> < 1 / 2"
  shows "to_double a = Num (of_int m / 2 ^ k)"
proof -
  have p: "(2::rat) powi (- int k) = 1 / 2 ^ k"
    by (simp add: power_int_minus_divide)
  have "to_double a = Num (of_int m * 2 powi (- int k))"
  proof (rule to_double_pos)
    show "2 powi 52 \<le> a / 2 powi (- int k)" using assms(1) by (simp add: p)
    show "a / 2 powi (- int k) < 2 powi 53" using assms(2) by (simp add: p)
    show "- 1074 \<le> - int k" using assms(3) by simp
    show "- int k \<le> 970" by simp
    show "round_half_even (a / 2 powi (- int k)) = m"
      using assms(4) by (intro round_half_even_near) (simp add: p)
  qed
  then show ?thesis by (simp add: p)
qed

lemma to_double_of_nat:
  assumes "n < 2 ^ 53"
  shows "to_double (of_nat n) = Num (of_nat n)"
proof (cases "n = 0")
  case True
  then show ?thesis by (simp add: to_double_def)
next
  case False
  let ?a = "of_nat n :: rat"
  have a: "0 < ?a" using False by simp
  let ?k = "floor_log2 ?a"
  note B = floor_log2_bounds [OF a]
  have k0: "0 \<le> ?k"
  proof (rule ccontr)
    assume "\<not> 0 \<le> ?k"
    then have "(2::rat) powi (?k + 1) \<le> 2 powi 0" by (intro power_int_increasing) auto
    with B(2) have "?a < 1" by simp
    with False show False by simp
  qed
  have k52: "?k \<le> 52"
  proof (rule ccontr)
    assume "\<not> ?k \<le> 52"
    then have "(2::rat) powi 53 \<le> 2 powi ?k" by (intro power_int_increasing) auto
    with B(1) have "(2::rat) ^ 53 \<le> ?a" by simp
    moreover have "?a < 2 ^ 53" using assms by (metis of_nat_less_iff of_nat_numeral of_nat_power)
    ultimately show False by simp
  qed
  let ?e = "?k - 52"
  let ?m = "int n * 2 ^ nat (52 - ?k)"
  have "?e = - int (nat (52 - ?k))" using k52 by simp
  then have s: "(2::rat) powi ?e = 1 / 2 ^ nat (52 - ?k)"
    by (simp only: power_int_minus_divide power_int_of_nat)
  have t: "(2::rat) powi (52 - ?k) = 2 ^ nat (52 - ?k)"
    using k52 by (simp add: power_int_nonneg_exp)
  have d: "?a / 2 powi ?e = ?a * 2 powi (52 - ?k)" by (simp add: s t)
  have q: "?a / 2 powi ?e = of_int ?m" by (simp add: s)
  have "to_double ?a = Num (of_int ?m * 2 powi ?e)"
  proof (rule to_double_pos)
    have "(2::rat) powi 52 = 2 powi ?k * 2 powi (52 - ?k)"
      by (simp flip: power_int_add)
    also have "\<dots> \<le> ?a * 2 powi (52 - ?k)" using B(1) by (intro mult_right_mono) simp_all
    finally show "2 powi 52 \<le> ?a / 2 powi ?e" by (simp only: d)
    have "?a * 2 powi (52 - ?k) < 2 powi (?k + 1) * 2 powi (52 - ?k)"
      using B(2) by (intro mult_strict_right_mono) simp_all
    also have "\<dots> = (2::rat) powi 53" by (simp flip: power_int_add)
    finally show "?a / 2 powi ?e < 2 powi 53" by (simp only: d)
    show "- 1074 \<le> ?e" using k0 by simp
    show "?e \<le> 970" using k52 by simp
    show "round_half_even (?a / 2 powi ?e) = ?m" unfolding q by (rule round_half_even_of_int)
  qed
  then show ?thesis by (simp add: s)
qed

subsection \<open>The percentages\<close>

lemma js_of_nat_exact: "n < 2 ^ 53 \<Longrightarrow> js_of_nat n = Num (of_nat n)"
  unfolding js_of_nat_def by (rule to_double_of_nat)

lemma js_total_exact:
  "acc + sum_list vs < 2 ^ 53 \<Longrightarrow>
     foldl (\<lambda>sum v. js_plus sum (js_of_nat v)) (Num (of_nat acc)) vs = Num (of_nat (acc + sum_list vs))"
proof (induction vs arbitrary: acc)
  case Nil
  then show ?case by simp
next
  case (Cons v vs)
  have v: "v < 2 ^ 53" and av: "acc + v < 2 ^ 53" using Cons.prems by simp_all
  have "js_plus (Num (of_nat acc)) (js_of_nat v) = to_double (of_nat (acc + v))"
    by (simp add: js_of_nat_exact [OF v])
  also have "\<dots> = Num (of_nat (acc + v))" using av by (rule to_double_of_nat)
  finally have s: "js_plus (Num (of_nat acc)) (js_of_nat v) = Num (of_nat (acc + v))" .
  have "acc + v + sum_list vs < 2 ^ 53" using Cons.prems by (simp add: add.assoc)
  from Cons.IH [OF this] show ?case by (simp add: s add.assoc)
qed

lemma percentage_of_total:
  "map percentage (calculateLanguagePercentages languages)
     = map (\<lambda>(lang, bytes).
              Math_round
                (js_times
                   (js_divide (js_of_nat bytes)
                      (foldl (\<lambda>sum v. js_plus sum (js_of_nat v)) (Num 0) (map snd languages)))
                   (Num 100)))
         languages"
  unfolding calculateLanguagePercentages_def Let_def
  by (simp add: case_prod_unfold comp_def)

lemma percentage_formula:
  assumes "sum_list (map snd languages) < 2 ^ 53"
  shows "map percentage (calculateLanguagePercentages languages)
     = map (\<lambda>(lang, bytes).
              Math_round (js_times (js_divide (js_of_nat bytes)
                                      (Num (of_nat (sum_list (map snd languages)))))
                            (Num 100)))
         languages"
proof -
  have "foldl (\<lambda>sum v. js_plus sum (js_of_nat v)) (Num (of_nat 0)) (map snd languages)
          = Num (of_nat (0 + sum_list (map snd languages)))"
    using assms by (intro js_total_exact) simp
  then have t: "foldl (\<lambda>sum v. js_plus sum (js_of_nat v)) (Num 0) (map snd languages)
          = Num (of_nat (sum_list (map snd languages)))"
    by simp
  show ?thesis
    unfolding calculateLanguagePercentages_def t Let_def
    by (simp add: case_prod_unfold comp_def)
qed

lemma double_3_10: "to_double (3 / 10) = Num (5404319552844595 / 2 ^ 54)"
  using to_double_scaled [of "3 / 10" 54 5404319552844595] by simp

lemma double_3_10_times_100: "to_double (5404319552844595 / 2 ^ 54 * 100) = Num 30"
  using to_double_scaled [of "5404319552844595 / 2 ^ 54 * 100" 48 8444249301319680] by simp

lemma double_7_10: "to_double (7 / 10) = Num (6305039478318694 / 2 ^ 53)"
  using to_double_scaled [of "7 / 10" 53 6305039478318694] by simp

lemma double_7_10_times_100: "to_double (6305039478318694 / 2 ^ 53 * 100) = Num 70"
  using to_double_scaled [of "6305039478318694 / 2 ^ 53 * 100" 46 4925812092436480] by simp

lemma double_1_3: "to_double (1 / 3) = Num (6004799503160661 / 2 ^ 54)"
  using to_double_scaled [of "1 / 3" 54 6004799503160661] by simp

lemma double_1_3_times_100:
  "to_double (6004799503160661 / 2 ^ 54 * 100) = Num (4691249611844266 / 2 ^ 47)"
  using to_double_scaled [of "6004799503160661 / 2 ^ 54 * 100" 47 4691249611844266] by simp

lemma double_23_40: "to_double (23 / 40) = Num (5179139571476070 / 2 ^ 53)"
  using to_double_scaled [of "23 / 40" 53 5179139571476070] by simp

lemma double_23_40_times_100:
  "to_double (5179139571476070 / 2 ^ 53 * 100) = Num (8092405580431359 / 2 ^ 47)"
  using to_double_scaled [of "5179139571476070 / 2 ^ 53 * 100" 47 8092405580431359] by simp

lemma double_17_40: "to_double (17 / 40) = Num (7656119366529843 / 2 ^ 54)"
  using to_double_scaled [of "17 / 40" 54 7656119366529843] by simp

lemma double_17_40_times_100:
  "to_double (7656119366529843 / 2 ^ 54 * 100) = Num (85 / 2)"
  using to_double_scaled [of "7656119366529843 / 2 ^ 54 * 100" 47 5981343255101440] by simp

lemma js_of_nat_small [simp]:
  "js_of_nat 0 = Num 0" "js_of_nat 1 = Num 1" "js_of_nat 17 = Num 17" "js_of_nat 23 = Num 23"
  "js_of_nat 30 = Num 30" "js_of_nat 70 = Num 70"
  using js_of_nat_exact [of 0] js_of_nat_exact [of 1] js_of_nat_exact [of 17] js_of_nat_exact [of 23]
    js_of_nat_exact [of 30] js_of_nat_exact [of 70]
  by simp_all

lemma percent_30_of_100: "Math_round (js_times (js_divide (Num 30) (Num 100)) (Num 100)) = Num 30"
proof -
  have d: "js_divide (Num 30) (Num 100) = to_double (3 / 10)" by simp
  have r: "js_times (js_divide (Num 30) (Num 100)) (Num 100) = Num (30)"
    unfolding d double_3_10 js_times.simps by (rule double_3_10_times_100)
  show ?thesis unfolding r by (simp add: floor_eq_iff)
qed

lemma percent_70_of_100: "Math_round (js_times (js_divide (Num 70) (Num 100)) (Num 100)) = Num 70"
proof -
  have d: "js_divide (Num 70) (Num 100) = to_double (7 / 10)" by simp
  have r: "js_times (js_divide (Num 70) (Num 100)) (Num 100) = Num (70)"
    unfolding d double_7_10 js_times.simps by (rule double_7_10_times_100)
  show ?thesis unfolding r by (simp add: floor_eq_iff)
qed

lemma percent_1_of_3: "Math_round (js_times (js_divide (Num 1) (Num 3)) (Num 100)) = Num 33"
proof -
  have d: "js_divide (Num 1) (Num 3) = to_double (1 / 3)" by simp
  have r: "js_times (js_divide (Num 1) (Num 3)) (Num 100) = Num (4691249611844266 / 2 ^ 47)"
    unfolding d double_1_3 js_times.simps by (rule double_1_3_times_100)
  show ?thesis unfolding r by (simp add: floor_eq_iff)
qed

lemma percent_23_of_40: "Math_round (js_times (js_divide (Num 23) (Num 40)) (Num 100)) = Num 57"
proof -
  have d: "js_divide (Num 23) (Num 40) = to_double (23 / 40)" by simp
  have r: "js_times (js_divide (Num 23) (Num 40)) (Num 100) = Num (8092405580431359 / 2 ^ 47)"
    unfolding d double_23_40 js_times.simps by (rule double_23_40_times_100)
  show ?thesis unfolding r by (simp add: floor_eq_iff)
qed

lemma percent_17_of_40: "Math_round (js_times (js_divide (Num 17) (Num 40)) (Num 100)) = Num 43"
proof -
  have d: "js_divide (Num 17) (Num 40) = to_double (17 / 40)" by simp
  have r: "js_times (js_divide (Num 17) (Num 40)) (Num 100) = Num (85 / 2)"
    unfolding d double_17_40 js_times.simps by (rule double_17_40_times_100)
  show ?thesis unfolding r by (simp add: floor_eq_iff)
qed

lemma percentages_30_70: "calculateLanguagePercentages [(''A'', 30), (''B'', 70)]
       = [\<lparr> lp_language = ''A'', percentage = Num 30, lp_bytes = 30 \<rparr>,
          \<lparr> lp_language = ''B'', percentage = Num 70, lp_bytes = 70 \<rparr>]"
proof -
  have t: "foldl (\<lambda>sum v. js_plus sum (js_of_nat v)) (Num 0) (map snd [(''A'', 30), (''B'', 70)]) = Num 100"
    using js_total_exact [of 0 "[30, 70]"] by simp
  show ?thesis
    unfolding calculateLanguagePercentages_def t Let_def
    by (simp only: list.map split_conv js_of_nat_small percent_30_of_100 percent_70_of_100)
qed

lemma percentages_thirds: "map percentage (calculateLanguagePercentages [(''A'', 1), (''B'', 1), (''C'', 1)])
       = [Num 33, Num 33, Num 33]"
proof -
  have t: "foldl (\<lambda>sum v. js_plus sum (js_of_nat v)) (Num 0) (map snd [(''A'', 1), (''B'', 1), (''C'', 1)]) = Num 3"
    using js_total_exact [of 0 "[1, 1, 1]"] by simp
  show ?thesis
    unfolding calculateLanguagePercentages_def t Let_def
    by (simp only: list.map split_conv js_of_nat_small percent_1_of_3 language_percentage.simps)
qed

lemma double_33_66_99: "to_double 33 = Num 33" "to_double 66 = Num 66" "to_double 99 = Num 99"
  using to_double_of_nat [of 33] to_double_of_nat [of 66] to_double_of_nat [of 99] by simp_all

lemma percentages_thirds_sum: "foldl js_plus (Num 0) (map percentage (calculateLanguagePercentages [(''A'', 1), (''B'', 1), (''C'', 1)]))
       = Num 99"
  unfolding percentages_thirds by (simp add: double_33_66_99)

lemma percentages_23_17: "map percentage (calculateLanguagePercentages [(''A'', 23), (''B'', 17)])
       = [Num 57, Num 43]"
proof -
  have t: "foldl (\<lambda>sum v. js_plus sum (js_of_nat v)) (Num 0) (map snd [(''A'', 23), (''B'', 17)]) = Num 40"
    using js_total_exact [of 0 "[23, 17]"] by simp
  show ?thesis
    unfolding calculateLanguagePercentages_def t Let_def
    by (simp only: list.map split_conv js_of_nat_small percent_23_of_40 percent_17_of_40
          language_percentage.simps)
qed

lemma js_total_zero:
  "\<forall>v \<in> set vs. v = 0 \<Longrightarrow> foldl (\<lambda>sum v. js_plus sum (js_of_nat v)) (Num 0) vs = Num 0"
  by (induction vs) (simp_all add: to_double_def)

lemma calculate_zero_total:
  assumes "sum_list (map snd languages) = 0"
  shows "calculateLanguagePercentages languages
          = map (\<lambda>(lang, bytes). \<lparr> lp_language = lang, percentage = NaN, lp_bytes = bytes \<rparr>) languages"
proof -
  have z: "\<And>l b. (l, b) \<in> set languages \<Longrightarrow> b = 0"
    using assms by (auto simp: sum_list_eq_0_iff)
  have t: "foldl (\<lambda>sum v. js_plus sum (js_of_nat v)) (Num 0) (map snd languages) = Num 0"
    using z by (intro js_total_zero) auto
  show ?thesis
    unfolding calculateLanguagePercentages_def t Let_def
  proof (rule map_cong [OF refl])
    fix x
    assume mem: "x \<in> set languages"
    obtain l b where lb: "x = (l, b)" by (cases x)
    have x: "x = (l, 0)" using z [of l b] mem by (simp add: lb)
    show "(case x of (lang, bytes) \<Rightarrow>
             \<lparr> lp_language = lang,
               percentage = Math_round (js_times (js_divide (js_of_nat bytes) (Num 0)) (Num 100)),
               lp_bytes = bytes \<rparr>)
          = (case x of (lang, bytes) \<Rightarrow> \<lparr> lp_language = lang, percentage = NaN, lp_bytes = bytes \<rparr>)"
      by (simp add: x)
  qed
qed

text \<open>
  Claim C8. Each language is mapped to \<open>Math.round((bytes / total) * 100)\<close>, a function
  of its own byte count and of the total only, so nothing corrects the drift of the
  rounding; the total is the sum of the byte counts from 0, their exact sum while they
  add up to less than \<open>2 ^ 53\<close>. The quotient and the product are rounded to doubles before \<open>Math.round\<close>. The
  byte counts 30 and 70 give 30 and 70; three byte counts of 1 give 33 each, 99 in
  sum; the byte counts 23 and 17 give 57 and 43, the product \<open>0.575 * 100\<close> being the
  double just below 57.5.
\<close>

theorem language_percentages_rounded:
  "map percentage (calculateLanguagePercentages languages)
     = map (\<lambda>(lang, bytes).
              Math_round
                (js_times
                   (js_divide (js_of_nat bytes)
                      (foldl (\<lambda>sum v. js_plus sum (js_of_nat v)) (Num 0) (map snd languages)))
                   (Num 100)))
         languages
   \<and> (sum_list (map snd languages) < 2 ^ 53 \<longrightarrow>
      map percentage (calculateLanguagePercentages languages)
        = map (\<lambda>(lang, bytes).
                 Math_round (js_times (js_divide (js_of_nat bytes)
                                         (Num (of_nat (sum_list (map snd languages)))))
                               (Num 100)))
            languages)
   \<and> calculateLanguagePercentages [(''A'', 30), (''B'', 70)]
       = [\<lparr> lp_language = ''A'', percentage = Num 30, lp_bytes = 30 \<rparr>,
          \<lparr> lp_language = ''B'', percentage = Num 70, lp_bytes = 70 \<rparr>]
   \<and> map percentage (calculateLanguagePercentages [(''A'', 1), (''B'', 1), (''C'', 1)])
       = [Num 33, Num 33, Num 33]
   \<and> foldl js_plus (Num 0)
         (map percentage (calculateLanguagePercentages [(''A'', 1), (''B'', 1), (''C'', 1)]))
       = Num 99
   \<and> map percentage (calculateLanguagePercentages [(''A'', 23), (''B'', 17)])
       = [Num 57, Num 43]"
  using percentage_of_total [of languages] percentage_formula [of languages]
    percentages_30_70 percentages_thirds percentages_thirds_sum percentages_23_17
  by blast

theorem language_percentages_rounded_witness:
  "sum_list (map snd [(''A'', 30), (''B'', 70 :: nat)]) < 2 ^ 53
   \<and> map percentage (calculateLanguagePercentages [(''A'', 30), (''B'', 70)])
       = [Math_round (js_times (js_divide (js_of_nat 30) (Num 100)) (Num 100)),
          Math_round (js_times (js_divide (js_of_nat 70) (Num 100)) (Num 100))]"
proof -
  have h: "sum_list (map snd [(''A'', 30), (''B'', 70 :: nat)]) < 2 ^ 53" by simp
  have s: "sum_list (map snd [(''A'', 30), (''B'', 70 :: nat)]) = 100" by simp
  from language_percentages_rounded [of "[(''A'', 30), (''B'', 70)]"] h
  have "map percentage (calculateLanguagePercentages [(''A'', 30), (''B'', 70)])
        = map (\<lambda>(lang, bytes).
                 Math_round (js_times (js_divide (js_of_nat bytes)
                                         (Num (of_nat (sum_list (map snd [(''A'', 30), (''B'', 70 :: nat)])))))
                               (Num 100)))
            [(''A'', 30), (''B'', 70)]"
    by blast
  then have "map percentage (calculateLanguagePercentages [(''A'', 30), (''B'', 70)])
       = [Math_round (js_times (js_divide (js_of_nat 30) (Num 100)) (Num 100)),
          Math_round (js_times (js_divide (js_of_nat 70) (Num 100)) (Num 100))]"
    unfolding s by (simp only: list.map split_conv of_nat_numeral)
  with h show ?thesis by blast
qed

text \<open>
  Claim C10. The division by the total is not guarded. For a language object that is
  not empty and whose byte counts add up to zero, the section is rendered and every
  percentage is \<open>NaN\<close>, neither zero nor an error. The guard of the call site is the
  emptiness of the object and nothing else.
\<close>

theorem zero_total_gives_NaN:
  assumes "languages \<noteq> []" and "sum_list (map snd languages) = 0"
  shows "languages_section languages
           = Some (map (\<lambda>(lang, bytes). \<lparr> lp_language = lang, percentage = NaN, lp_bytes = bytes \<rparr>)
                     languages)
       \<and> list_all (\<lambda>p. percentage p = NaN) (calculateLanguagePercentages languages)
       \<and> languages_section [] = None
       \<and> (\<forall>ls. ls \<noteq> [] \<longrightarrow> languages_section ls = Some (calculateLanguagePercentages ls))"
proof -
  have "list_all (\<lambda>p. percentage p = NaN)
          (map (\<lambda>(lang, bytes). \<lparr> lp_language = lang, percentage = NaN, lp_bytes = bytes \<rparr>) languages)"
    by (simp add: list_all_iff case_prod_unfold)
  then show ?thesis
    using assms by (simp add: languages_section_def calculate_zero_total)
qed

theorem zero_total_gives_NaN_witness:
  "languages_section [(''Shell'', 0), (''Makefile'', 0)]
     = Some [\<lparr> lp_language = ''Shell'', percentage = NaN, lp_bytes = 0 \<rparr>,
             \<lparr> lp_language = ''Makefile'', percentage = NaN, lp_bytes = 0 \<rparr>]"
proof -
  have h1: "[(''Shell'', 0::nat), (''Makefile'', 0)] \<noteq> []" by simp
  have h2: "sum_list (map snd [(''Shell'', 0::nat), (''Makefile'', 0)]) = 0" by simp
  from zero_total_gives_NaN [OF h1 h2] show ?thesis by simp
qed

section \<open>The activity graph: properties\<close>

subsection \<open>The scan\<close>

lemma scan_requests:
  "fst (scan_participation part headers cands)
     = map (\<lambda>repo. GetParticipation (full_name repo) headers)
         (takeWhile (\<lambda>repo. \<not> has_data part repo) cands
          @ take 1 (dropWhile (\<lambda>repo. \<not> has_data part repo) cands))"
  by (induction cands) (auto simp: has_data_def split: option.splits prod.splits)

lemma scan_result:
  "snd (scan_participation part headers cands)
     = map_option (\<lambda>repo. (name repo, the (owner_participation (part (full_name repo)))))
         (find (has_data part) cands)"
  by (induction cands) (auto simp: has_data_def split: option.splits prod.splits)

lemma scanned_length:
  "length (takeWhile P xs @ take 1 (dropWhile P xs)) \<le> length xs"
proof -
  have "length (takeWhile P xs) + length (dropWhile P xs) = length xs"
    by (metis length_append takeWhile_dropWhile_id)
  then show ?thesis by simp
qed

subsection \<open>The months\<close>

lemma map_fst_count_push:
  "map fst (count_push k m) = (if k \<in> fst ` set m then map fst m else map fst m @ [k])"
proof (cases "map_of m k")
  case None
  then have "k \<notin> fst ` set m" by (simp add: map_of_eq_None_iff)
  with None show ?thesis by (simp add: count_push_def)
next
  case (Some c)
  then have "(k, c) \<in> set m" by (rule map_of_SomeD)
  then have "k \<in> fst ` set m" by force
  moreover have "map fst (map (\<lambda>(k', c'). if k' = k then (k', c + 1) else (k', c')) m) = map fst m"
    by (induction m) auto
  ultimately show ?thesis using Some by (simp add: count_push_def)
qed

lemma map_of_count_push:
  "map_of (count_push k m) k'
     = (if k' = k then Some (case map_of m k of None \<Rightarrow> 1 | Some c \<Rightarrow> c + 1) else map_of m k')"
proof (cases "map_of m k")
  case None
  have "map_of (m @ [(k, 1)]) k' = (if k' = k then Some 1 else map_of m k')"
    using None by (induction m) (auto split: if_splits)
  with None show ?thesis by (simp add: count_push_def)
next
  case (Some c)
  have "map_of (map (\<lambda>(k', c'). if k' = k then (k', c + 1) else (k', c')) m) k'
          = (if k' = k then map_option (\<lambda>_. c + 1) (map_of m k) else map_of m k')"
    by (induction m) auto
  with Some show ?thesis by (simp add: count_push_def)
qed

lemma activityMap_snoc:
  "activityMap_of key (rs @ [r]) = count_push (key r) (activityMap_of key rs)"
  by (simp add: activityMap_of_def)

lemma activityMap_keys:
  "distinct (map fst (activityMap_of key rs)) \<and> set (map fst (activityMap_of key rs)) = key ` set rs"
proof (induction rs rule: rev_induct)
  case Nil
  then show ?case by (simp add: activityMap_of_def)
next
  case (snoc r rs)
  then show ?case
    unfolding activityMap_snoc map_fst_count_push by auto
qed

lemma activityMap_counts:
  "map_of (activityMap_of key rs) k
     = (if k \<in> key ` set rs then Some (int (length (filter (\<lambda>r. key r = k) rs))) else None)"
proof (induction rs arbitrary: k rule: rev_induct)
  case Nil
  then show ?case by (simp add: activityMap_of_def)
next
  case (snoc r rs)
  show ?case
  proof (cases "k = key r")
    case True
    show ?thesis
      unfolding activityMap_snoc map_of_count_push snoc.IH [of "key r"] True
      by (auto simp: filter_empty_conv image_iff)
  next
    case False
    then show ?thesis
      unfolding activityMap_snoc map_of_count_push snoc.IH [of k]
      by auto
  qed
qed

lemma activityMap_sorted_keys:
  "sort (map fst (activityMap_of key rs)) = sorted_list_of_set (key ` set rs)"
proof (rule sorted_distinct_set_unique)
  show "sorted (sort (map fst (activityMap_of key rs)))" by simp
  show "distinct (sort (map fst (activityMap_of key rs)))" using activityMap_keys by simp
  show "sorted (sorted_list_of_set (key ` set rs))" by simp
  show "distinct (sorted_list_of_set (key ` set rs))" by simp
  show "set (sort (map fst (activityMap_of key rs))) = set (sorted_list_of_set (key ` set rs))"
    using activityMap_keys by simp
qed

lemma push_activity_spec: "push_activity localDate rs = spec_monthly_buckets localDate rs"
proof -
  let ?m = "activityMap_of (dateKey localDate) rs"
  have m: "foldl (\<lambda>m repo. count_push (dateKey localDate repo) m) [] rs = ?m"
    by (simp add: activityMap_of_def)
  have "map (\<lambda>k. \<lparr> point_name = month_label (split_on CHR ''-'' k),
                    commits = the (map_of ?m k), point_date = k \<rparr>)
          (sorted_list_of_set (dateKey localDate ` set rs))
      = map (\<lambda>k. \<lparr> point_name = month_label (split_on CHR ''-'' k),
                    commits = int (length (filter (\<lambda>r. dateKey localDate r = k) rs)),
                    point_date = k \<rparr>)
          (sorted_list_of_set (dateKey localDate ` set rs))"
    by (rule map_cong) (simp_all add: activityMap_counts)
  then show ?thesis
    unfolding push_activity_def spec_monthly_buckets_def m activityMap_sorted_keys Let_def
    by (simp only: length_map)
qed

lemma fetchActivityData_no_candidates:
  assumes "username \<noteq> []" and "recent_repos_response w = Http status (RepoArray rs)" and "ok status"
    and "filter (\<lambda>repo. \<not> fork repo) rs = []"
  shows "fetchActivityData w username
           = ([GetRecentRepos username (createGitHubHeaders (ClientSide (activity_token w)) (activity_env w))],
              ActivityData [])"
  using assms by (simp add: fetchActivityData_def Let_def)

lemma fetchActivityData_scan:
  assumes "username \<noteq> []" and "recent_repos_response w = Http status (RepoArray rs)" and "ok status"
    and "filter (\<lambda>repo. \<not> fork repo) rs \<noteq> []"
  shows "fetchActivityData w username
           = (let headers = createGitHubHeaders (ClientSide (activity_token w)) (activity_env w);
                  sc = scan_participation (participation_response w) headers
                         (take 3 (filter (\<lambda>repo. \<not> fork repo) rs))
              in (GetRecentRepos username headers # fst sc,
                  case snd sc of
                    None \<Rightarrow> ActivityData (push_activity (clock_localDate w) rs)
                  | Some (repo_name, weeks) \<Rightarrow>
                      ActivityData (filter (\<lambda>item. commits item > 0)
                                      (participation_points (clock_weeksAgo w) weeks))))"
proof -
  let ?headers = "createGitHubHeaders (ClientSide (activity_token w)) (activity_env w)"
  let ?nf = "filter (\<lambda>repo. \<not> fork repo) rs"
  have rs: "rs \<noteq> []" using assms(4) by auto
  have t: "take (min (length ?nf) 3) ?nf = take 3 ?nf"
    by (simp add: min_def)
  obtain reqs found where sc:
    "scan_participation (participation_response w) ?headers (take 3 ?nf) = (reqs, found)"
    by (cases "scan_participation (participation_response w) ?headers (take 3 ?nf)")
  show ?thesis
  proof (cases found)
    case None
    with assms rs sc show ?thesis by (simp add: fetchActivityData_def Let_def t)
  next
    case (Some p)
    obtain repo_name weeks where p: "p = (repo_name, weeks)" by (cases p)
    with Some assms rs sc show ?thesis by (simp add: fetchActivityData_def Let_def t)
  qed
qed

text \<open>
  The run on a repository list answered ok. The candidates are the first three
  repositories of the list that are not forks (the list is requested sorted by push
  time); their participation statistics are requested in order up to and including the
  first one with a positive owner week, and no further; that first one gives the weekly
  points. If there are candidates and none of them has such data, the result is the
  monthly buckets of the push dates of all listed repositories, the latest twelve months
  that have a push. If there is no candidate nothing is scanned and the result is the
  empty state.
\<close>

lemma fetchActivityData_cases:
  assumes "username \<noteq> []" and "recent_repos_response w = Http status (RepoArray rs)" and "ok status"
  shows
    "let headers = createGitHubHeaders (ClientSide (activity_token w)) (activity_env w);
         part = participation_response w;
         cands = take 3 (filter (\<lambda>repo. \<not> fork repo) rs);
         scanned = takeWhile (\<lambda>repo. \<not> has_data part repo) cands
                   @ take 1 (dropWhile (\<lambda>repo. \<not> has_data part repo) cands);
         run = fetchActivityData w username
     in length scanned \<le> 3
      \<and> (filter (\<lambda>repo. \<not> fork repo) rs \<noteq> [] \<longrightarrow>
           fst run = GetRecentRepos username headers
                     # map (\<lambda>repo. GetParticipation (full_name repo) headers) scanned)
      \<and> (\<forall>repo. find (has_data part) cands = Some repo \<longrightarrow>
           snd run = ActivityData
                       (filter (\<lambda>item. commits item > 0)
                          (participation_points (clock_weeksAgo w)
                             (the (owner_participation (part (full_name repo)))))))
      \<and> (filter (\<lambda>repo. \<not> fork repo) rs \<noteq> [] \<and> find (has_data part) cands = None \<longrightarrow>
           snd run = ActivityData (spec_monthly_buckets (clock_localDate w) rs))
      \<and> length (spec_monthly_buckets (clock_localDate w) rs) \<le> 12
      \<and> (filter (\<lambda>repo. \<not> fork repo) rs = [] \<longrightarrow>
           run = ([GetRecentRepos username headers], ActivityData [])
           \<and> activity_view (snd run) = NoActivityData)"
proof -
  let ?headers = "createGitHubHeaders (ClientSide (activity_token w)) (activity_env w)"
  let ?part = "participation_response w"
  let ?nf = "filter (\<lambda>repo. \<not> fork repo) rs"
  let ?cands = "take 3 ?nf"
  let ?scanned = "takeWhile (\<lambda>repo. \<not> has_data ?part repo) ?cands
                   @ take 1 (dropWhile (\<lambda>repo. \<not> has_data ?part repo) ?cands)"
  let ?run = "fetchActivityData w username"
  have a: "length ?scanned \<le> 3"
    using scanned_length [of "\<lambda>repo. \<not> has_data ?part repo" ?cands] by simp
  have b: "?nf \<noteq> [] \<longrightarrow>
             fst ?run = GetRecentRepos username ?headers
                        # map (\<lambda>repo. GetParticipation (full_name repo) ?headers) ?scanned"
    using fetchActivityData_scan [OF assms] by (simp add: Let_def scan_requests)
  have c: "\<forall>repo. find (has_data ?part) ?cands = Some repo \<longrightarrow>
             snd ?run = ActivityData
                          (filter (\<lambda>item. commits item > 0)
                             (participation_points (clock_weeksAgo w)
                                (the (owner_participation (?part (full_name repo))))))"
  proof (intro allI impI)
    fix repo assume f: "find (has_data ?part) ?cands = Some repo"
    then have "?cands \<noteq> []" by auto
    then have "?nf \<noteq> []" by auto
    from fetchActivityData_scan [OF assms this] f
    show "snd ?run = ActivityData
                          (filter (\<lambda>item. commits item > 0)
                             (participation_points (clock_weeksAgo w)
                                (the (owner_participation (?part (full_name repo))))))"
      by (simp add: Let_def scan_result)
  qed
  have d: "?nf \<noteq> [] \<and> find (has_data ?part) ?cands = None \<longrightarrow>
             snd ?run = ActivityData (spec_monthly_buckets (clock_localDate w) rs)"
    using fetchActivityData_scan [OF assms] by (simp add: Let_def scan_result push_activity_spec)
  have e: "length (spec_monthly_buckets (clock_localDate w) rs) \<le> 12"
    by (simp add: spec_monthly_buckets_def Let_def)
  have f: "?nf = [] \<longrightarrow> ?run = ([GetRecentRepos username ?headers], ActivityData [])
             \<and> activity_view (snd ?run) = NoActivityData"
    using fetchActivityData_no_candidates [OF assms] by (simp add: activity_view_def)
  from a b c d e f show ?thesis unfolding Let_def by blast
qed

lemma sample_headers:
  "createGitHubHeaders (ClientSide (activity_token (sample_activity_world rs part)))
     (activity_env (sample_activity_world rs part)) = None"
  by (simp add: sample_activity_world_def createGitHubHeaders_def githubToken_getGitHubToken_def)

lemma sample_cands:
  "filter (\<lambda>repo. \<not> fork repo) (two_repos @ [forked_repo]) = two_repos"
  by (simp add: two_repos_def forked_repo_def sample_repo_def)

lemma sample_has_data:
  "map (has_data sample_participation) two_repos = [False, True]"
  "map (has_data no_participation) two_repos = [False, False]"
  by (simp_all add: has_data_def sample_participation_def no_participation_def two_repos_def
      sample_repo_def owner_participation_def ok_def)

lemma sample_months:
  "push_activity (clock_localDate (sample_activity_world rs part)) (two_repos @ [forked_repo])
     = [\<lparr> point_name = ''01/24'', commits = 1, point_date = ''2024-01'' \<rparr>,
        \<lparr> point_name = ''02/24'', commits = 2, point_date = ''2024-02'' \<rparr>]"
  by (simp add: push_activity_def sample_activity_world_def two_repos_def forked_repo_def
      sample_repo_def dateKey_def padStart_def count_push_def Let_def)

lemma sample_world_fields:
  "recent_repos_response (sample_activity_world rs part) = Http 200 (RepoArray rs)"
  "participation_response (sample_activity_world rs part) = part"
  by (simp_all add: sample_activity_world_def)

lemma sample_scan:
  "find (has_data sample_participation) (take 3 two_repos) = Some (two_repos ! 1)"
  "find (has_data no_participation) (take 3 two_repos) = None"
  "takeWhile (\<lambda>repo. \<not> has_data sample_participation repo) (take 3 two_repos)
     @ take 1 (dropWhile (\<lambda>repo. \<not> has_data sample_participation repo) (take 3 two_repos))
   = two_repos"
  using sample_has_data by (simp_all add: two_repos_def)

lemma sample_points:
  "filter (\<lambda>item. commits item > 0)
     (participation_points (clock_weeksAgo (sample_activity_world rs part))
        (the (owner_participation (sample_participation ''octocat/starred''))))
   = [\<lparr> point_name = ''Week 2'', commits = 2, point_date = ''10/27'' \<rparr>,
      \<lparr> point_name = ''Week 3'', commits = 1, point_date = ''11/3'' \<rparr>]"
  by (simp add: participation_points_def sample_activity_world_def
      sample_participation_def owner_participation_def ok_def enumerate_eq_zip upt_rec)

lemma fetchActivityData_samples:
  "fetchActivityData (sample_activity_world (two_repos @ [forked_repo]) sample_participation) ''octocat''
     = ([GetRecentRepos ''octocat'' None,
         GetParticipation ''octocat/recent'' None,
         GetParticipation ''octocat/starred'' None],
        ActivityData [\<lparr> point_name = ''Week 2'', commits = 2, point_date = ''10/27'' \<rparr>,
                      \<lparr> point_name = ''Week 3'', commits = 1, point_date = ''11/3'' \<rparr>])
   \<and> snd (fetchActivityData (sample_activity_world (two_repos @ [forked_repo]) no_participation) ''octocat'')
     = ActivityData [\<lparr> point_name = ''01/24'', commits = 1, point_date = ''2024-01'' \<rparr>,
                     \<lparr> point_name = ''02/24'', commits = 2, point_date = ''2024-02'' \<rparr>]
   \<and> fetchActivityData (sample_activity_world [] sample_participation) ''octocat''
     = ([GetRecentRepos ''octocat'' None], ActivityData [])"
proof -
  have h1: "''octocat'' \<noteq> []" by simp
  have h3: "ok 200" by (simp add: ok_def)
  have names: "map full_name two_repos = [''octocat/recent'', ''octocat/starred'']"
    by (simp add: two_repos_def sample_repo_def)
  have a: "fetchActivityData (sample_activity_world (two_repos @ [forked_repo]) sample_participation) ''octocat''
     = ([GetRecentRepos ''octocat'' None,
         GetParticipation ''octocat/recent'' None,
         GetParticipation ''octocat/starred'' None],
        ActivityData [\<lparr> point_name = ''Week 2'', commits = 2, point_date = ''10/27'' \<rparr>,
                      \<lparr> point_name = ''Week 3'', commits = 1, point_date = ''11/3'' \<rparr>])"
    using fetchActivityData_cases
            [OF h1 sample_world_fields(1) h3, of "two_repos @ [forked_repo]" sample_participation]
          names
    unfolding Let_def sample_headers sample_cands sample_world_fields(2) sample_scan
    by (simp add: two_repos_def prod_eq_iff sample_points)
  have b: "snd (fetchActivityData (sample_activity_world (two_repos @ [forked_repo]) no_participation) ''octocat'')
     = ActivityData [\<lparr> point_name = ''01/24'', commits = 1, point_date = ''2024-01'' \<rparr>,
                     \<lparr> point_name = ''02/24'', commits = 2, point_date = ''2024-02'' \<rparr>]"
    using fetchActivityData_cases
            [OF h1 sample_world_fields(1) h3, of "two_repos @ [forked_repo]" no_participation]
    unfolding Let_def sample_headers sample_cands sample_world_fields(2) sample_scan
      push_activity_spec [symmetric] sample_months
    by (simp add: two_repos_def)
  have c: "fetchActivityData (sample_activity_world [] sample_participation) ''octocat''
     = ([GetRecentRepos ''octocat'' None], ActivityData [])"
    using fetchActivityData_cases
            [OF h1 sample_world_fields(1) h3, of "[]" sample_participation]
    unfolding Let_def sample_headers
    by simp
  from a b c show ?thesis by blast
qed

text \<open>
  Claim C9. The repository list is answered with one repository, a fork. No scanned
  repository has participation data, since none is scanned, and the claim has the push
  dates bucketed by month then, which would give one bucket here. The run ends in the
  empty state after the single request for the list: the guard
  \<open>nonForkRepos.length === 0\<close>, under the comment "Fallback to any repo if no non-fork
  repos", sets the empty state and returns.
\<close>

theorem only_forks_empty_activity:
  "fetchActivityData (sample_activity_world [forked_repo] sample_participation) ''octocat''
     = ([GetRecentRepos ''octocat'' None], ActivityData [])
   \<and> push_activity (clock_localDate (sample_activity_world [forked_repo] sample_participation)) [forked_repo]
     = [\<lparr> point_name = ''02/24'', commits = 1, point_date = ''2024-02'' \<rparr>]"
  by (simp add: fetchActivityData_def sample_activity_world_def forked_repo_def sample_repo_def
      ok_def Let_def createGitHubHeaders_def githubToken_getGitHubToken_def
      push_activity_def dateKey_def padStart_def count_push_def)

section \<open>Similar profiles: properties\<close>

subsection \<open>Insertion of absent keys\<close>

lemma foldl_insert_absent_keys:
  "map fst (foldl insert_absent m xs)
     = map fst m @ filter (\<lambda>k. k \<notin> fst ` set m) (first_appearances (map fst xs))"
proof (induction xs arbitrary: m)
  case Nil
  then show ?case by simp
next
  case (Cons x xs)
  show ?case
  proof (cases "fst x \<in> fst ` set m")
    case True
    then have "filter (\<lambda>k. k \<notin> fst ` set m) (filter (\<lambda>y. y \<noteq> fst x) (first_appearances (map fst xs)))
             = filter (\<lambda>k. k \<notin> fst ` set m) (first_appearances (map fst xs))"
      by (auto intro: filter_cong)
    with True Cons.IH [of m] show ?thesis by (simp add: insert_absent_def)
  next
    case False
    have "filter (\<lambda>k. k \<notin> fst ` set (m @ [x])) (first_appearances (map fst xs))
        = filter (\<lambda>k. k \<notin> fst ` set m) (filter (\<lambda>y. y \<noteq> fst x) (first_appearances (map fst xs)))"
      by (auto intro: filter_cong)
    with False Cons.IH [of "m @ [x]"] show ?thesis by (simp add: insert_absent_def)
  qed
qed

lemma map_of_snoc_absent:
  "map_of (m @ [e]) k = (case map_of m k of Some v \<Rightarrow> Some v | None \<Rightarrow> if k = fst e then Some (snd e) else None)"
  by (induction m) (auto split: option.splits)

lemma foldl_insert_absent_values:
  "map_of (foldl insert_absent m xs) k
     = (case map_of m k of Some v \<Rightarrow> Some v | None \<Rightarrow> map_of xs k)"
proof (induction xs arbitrary: m)
  case Nil
  then show ?case by (simp split: option.splits)
next
  case (Cons x xs)
  obtain k' v' where x: "x = (k', v')" by (cases x)
  show ?case
  proof (cases "k' \<in> fst ` set m")
    case True
    then have "map_of m k' \<noteq> None" by (simp add: map_of_eq_None_iff)
    with True Cons.IH [of m] show ?thesis
      by (auto simp: insert_absent_def x split: option.splits)
  next
    case False
    then have "map_of m k' = None" by (simp add: map_of_eq_None_iff)
    with False Cons.IH [of "m @ [x]"] show ?thesis
      by (auto simp: insert_absent_def x map_of_snoc_absent split: option.splits)
  qed
qed

lemma foldl_insert_absent_append:
  "foldl insert_absent m (xs @ ys) = foldl insert_absent (foldl insert_absent m xs) ys"
  by simp

subsection \<open>The three methods insert what the strategies found\<close>

lemma add_candidate_insert:
  "foldl (add_candidate self reason) m as
     = foldl insert_absent m (map (entry reason) (filter (\<lambda>a. acc_login a \<noteq> self) as))"
  by (induction as arbitrary: m) (simp_all add: add_candidate_def insert_absent_def entry_def)

lemma contributors_step_insert:
  "contributors_step w self reason m repo
     = foldl insert_absent m
         (map (entry reason) (filter (\<lambda>a. acc_login a \<noteq> self) (contributors_of w repo)))"
  by (simp add: contributors_step_def contributors_of_def add_candidate_insert split: fetched.splits)

lemma contributors_fold_insert:
  "foldl (contributors_step w self reason) m items
     = foldl insert_absent m
         (map (entry reason)
            (filter (\<lambda>a. acc_login a \<noteq> self) (concat (map (contributors_of w) items))))"
  by (induction items arbitrary: m) (simp_all add: contributors_step_insert)

lemma following_step_insert:
  "following_step w self m follower
     = foldl insert_absent m
         (map (entry ''Followed by people who follow you'')
            (filter (\<lambda>a. acc_login a \<noteq> self) (following_of w follower)))"
  by (simp add: following_step_def following_of_def add_candidate_insert split: fetched.splits)

lemma following_fold_insert:
  "foldl (following_step w self) m fs
     = foldl insert_absent m
         (map (entry ''Followed by people who follow you'')
            (filter (\<lambda>a. acc_login a \<noteq> self) (concat (map (following_of w) fs))))"
  by (induction fs arbitrary: m) (simp_all add: following_step_insert)

lemma method1_insert:
  assumes "method1 w user (primaryLanguage_of rs) m = Some m'"
  shows "m' = foldl insert_absent m (map (entry (reason1 rs)) (strategy1_found w user rs))"
  using assms
  by (auto simp: method1_def strategy1_found_def reason1_def contributors_fold_insert
      split: if_splits fetched.splits option.splits)

lemma method2_insert:
  assumes "method2 w user (userTopics_of rs) m = Some m'"
  shows "m' = foldl insert_absent m (map (entry ''Works on similar topics'') (strategy2_found w user rs))"
  using assms
  by (auto simp: method2_def strategy2_found_def add_candidate_insert
      split: if_splits fetched.splits option.splits)

lemma method3_insert:
  assumes "method3 w user m = Some m'"
  shows "m' = foldl insert_absent m
                (map (entry ''Followed by people who follow you'') (strategy3_found w user))"
  using assms
  by (auto simp: method3_def strategy3_found_def following_fold_insert
      split: if_splits fetched.splits option.splits)

lemma findSimilarProfiles_merged:
  assumes "findSimilarProfiles w user rs = SimilarUsers result"
  shows "result = map (enhance w) (take 6 (map snd (merged w user rs)))"
proof (cases "userLanguages_of rs = [] \<and> userTopics_of rs = []")
  case True
  with assms show ?thesis
    by (auto simp: findSimilarProfiles_def merged_def discovered_def Let_def split: if_splits)
next
  case False
  from assms False obtain m1 m2 m3 where
    m1: "method1 w user (primaryLanguage_of rs) [] = Some m1" and
    m2: "method2 w user (userTopics_of rs) m1 = Some m2" and
    m3: "method3 w user m2 = Some m3" and
    r: "result = map (enhance w) (take 6 (map snd m3))"
    by (auto simp: findSimilarProfiles_def Let_def split: if_splits option.splits)
  have d: "discovered w user rs
             = map (entry (reason1 rs)) (strategy1_found w user rs)
               @ map (entry ''Works on similar topics'') (strategy2_found w user rs)
               @ map (entry ''Followed by people who follow you'') (strategy3_found w user)"
    using False by (auto simp: discovered_def)
  have "m3 = merged w user rs"
    unfolding merged_def d method3_insert [OF m3] method2_insert [OF m2] method1_insert [OF m1]
    by simp
  with r show ?thesis by simp
qed

subsection \<open>The merged map\<close>

lemma merged_keys: "map fst (merged w user rs) = first_appearances (map fst (discovered w user rs))"
  using foldl_insert_absent_keys [of "[]" "discovered w user rs"] by (simp add: merged_def)

lemma merged_distinct: "distinct (map fst (merged w user rs))"
  by (simp add: merged_keys distinct_first_appearances)

lemma merged_values:
  assumes "(k, u) \<in> set (merged w user rs)"
  shows "map_of (discovered w user rs) k = Some u"
proof -
  have "map_of (merged w user rs) k = Some u"
    using assms merged_distinct by simp
  then show ?thesis
    using foldl_insert_absent_values [of "[]" "discovered w user rs" k] by (simp add: merged_def)
qed

lemma not_in_filtered: "x \<notin> f ` set (filter (\<lambda>a. f a \<noteq> x) ys)"
  by auto

lemma strategy1_not_self: "login user \<notin> acc_login ` set (strategy1_found w user rs)"
proof (cases "truthy (primaryLanguage_of rs)")
  case False
  then show ?thesis by (simp add: strategy1_found_def)
next
  case True
  show ?thesis
  proof (cases "search_response w (''language:'' @ the (primaryLanguage_of rs) @ ''+stars:>10'')")
    case Throws
    with True show ?thesis by (simp add: strategy1_found_def)
  next
    case (Http status body)
    show ?thesis
    proof (cases "ok status")
      case False
      with True Http show ?thesis by (simp add: strategy1_found_def)
    next
      case ok: True
      show ?thesis
      proof (cases body)
        case None
        with True Http ok show ?thesis by (simp add: strategy1_found_def)
      next
        case (Some items)
        with True Http ok have
          "strategy1_found w user rs
             = filter (\<lambda>a. acc_login a \<noteq> login user) (concat (map (contributors_of w) (take 3 items)))"
          by (simp add: strategy1_found_def)
        then show ?thesis by (simp only: not_in_filtered not_False_eq_True)
      qed
    qed
  qed
qed

lemma strategy2_not_self: "login user \<notin> acc_login ` set (strategy2_found w user rs)"
proof (cases "userTopics_of rs \<noteq> []")
  case False
  then show ?thesis by (simp add: strategy2_found_def)
next
  case True
  show ?thesis
  proof (cases "search_response w (''topic:'' @ join ''+'' (take 3 (userTopics_of rs)) @ ''+stars:>5'')")
    case Throws
    with True show ?thesis by (simp add: strategy2_found_def)
  next
    case (Http status body)
    show ?thesis
    proof (cases "ok status")
      case False
      with True Http show ?thesis by (simp add: strategy2_found_def)
    next
      case ok: True
      show ?thesis
      proof (cases body)
        case None
        with True Http ok show ?thesis by (simp add: strategy2_found_def)
      next
        case (Some items)
        with True Http ok have
          "strategy2_found w user rs
             = filter (\<lambda>a. acc_login a \<noteq> login user) (map item_owner items)"
          by (simp add: strategy2_found_def)
        then show ?thesis by (simp only: not_in_filtered not_False_eq_True)
      qed
    qed
  qed
qed

lemma strategy3_not_self: "login user \<notin> acc_login ` set (strategy3_found w user)"
proof (cases "followers user > 0")
  case False
  then show ?thesis by (simp add: strategy3_found_def)
next
  case True
  show ?thesis
  proof (cases "followers_response w (login user)")
    case Throws
    with True show ?thesis by (simp add: strategy3_found_def)
  next
    case (Http status fs)
    show ?thesis
    proof (cases "ok status")
      case False
      with True Http show ?thesis by (simp add: strategy3_found_def)
    next
      case ok: True
      with True Http have
        "strategy3_found w user
           = filter (\<lambda>a. acc_login a \<noteq> login user) (concat (map (following_of w) fs))"
        by (simp add: strategy3_found_def)
      then show ?thesis by (simp only: not_in_filtered not_False_eq_True)
    qed
  qed
qed

lemma map_of_entries:
  assumes "map_of (map (entry r) as) k = Some u"
  shows "su_login u = k \<and> similarity_reason u = r \<and> su_name u = None \<and> k \<in> acc_login ` set as"
proof -
  from assms have "(k, u) \<in> set (map (entry r) as)" by (rule map_of_SomeD)
  then show ?thesis by (auto simp: entry_def)
qed

lemma map_of_entries_None:
  "map_of (map (entry r) as) k = None \<longleftrightarrow> k \<notin> acc_login ` set as"
  by (simp add: map_of_eq_None_iff image_image entry_def)

lemma discovered_value:
  assumes "map_of (discovered w user rs) k = Some u"
  shows "su_login u = k \<and> su_name u = None
       \<and> similarity_reason u =
           (if k \<in> acc_login ` set (strategy1_found w user rs) then reason1 rs
            else if k \<in> acc_login ` set (strategy2_found w user rs) then ''Works on similar topics''
            else ''Followed by people who follow you'')
       \<and> k \<noteq> login user"
proof -
  let ?E1 = "map (entry (reason1 rs)) (strategy1_found w user rs)"
  let ?E2 = "map (entry ''Works on similar topics'') (strategy2_found w user rs)"
  let ?E3 = "map (entry ''Followed by people who follow you'') (strategy3_found w user)"
  have d: "discovered w user rs = ?E1 @ ?E2 @ ?E3"
    using assms by (auto simp: discovered_def split: if_splits)
  note self = strategy1_not_self [of user w rs] strategy2_not_self [of user w rs]
    strategy3_not_self [of user w]
  show ?thesis
  proof (cases "map_of ?E1 k")
    case (Some u1)
    with assms d have "u = u1" by (simp add: map_add_def)
    with map_of_entries [OF Some] self(1) show ?thesis by auto
  next
    case n1: None
    then have k1: "k \<notin> acc_login ` set (strategy1_found w user rs)"
      by (simp add: map_of_entries_None)
    show ?thesis
    proof (cases "map_of ?E2 k")
      case (Some u2)
      with assms d n1 have "u = u2" by (simp add: map_add_def)
      with map_of_entries [OF Some] k1 self(2) show ?thesis by auto
    next
      case n2: None
      then have k2: "k \<notin> acc_login ` set (strategy2_found w user rs)"
        by (simp add: map_of_entries_None)
      from assms d n1 n2 have "map_of ?E3 k = Some u" by (simp add: map_add_def)
      from map_of_entries [OF this] k1 k2 self(3) show ?thesis by auto
    qed
  qed
qed

lemma merged_logins: "map su_login (map snd (merged w user rs)) = map fst (merged w user rs)"
proof -
  have "\<And>e. e \<in> set (merged w user rs) \<Longrightarrow> su_login (snd e) = fst e"
    using merged_values discovered_value by (metis prod.collapse)
  then show ?thesis by simp
qed

lemma enhance_fields:
  "su_login (enhance w u) = su_login u"
  "similarity_reason (enhance w u) = similarity_reason u"
  "su_name u = None \<Longrightarrow>
     su_name (enhance w u)
       = (case details_response w (su_login u) of
            Throws \<Rightarrow> None
          | Http status nm \<Rightarrow> if ok status then nm else None)"
  by (simp_all add: enhance_def split: fetched.splits)

lemma count_distinct_key:
  "distinct (map f cs) \<Longrightarrow>
     length (filter (\<lambda>c. f c = l) cs) = (if l \<in> set (map f cs) then 1 else 0)"
  by (induction cs) (auto simp: image_iff)

text \<open>
  Claim C7, as amended. For every run that ends with a result: the result holds the
  logins discovered by the three strategies in order of first discovery, each once and
  at most six in all, so a login appears exactly once when it is among the first six
  discovered logins and not at all otherwise; each candidate carries the reason of the
  first strategy that discovered its login; its display name is the one of its profile
  when that request is answered ok and null otherwise, the candidate staying in the
  result; the current user is never a candidate.
\<close>

theorem similar_profiles_merge:
  assumes "findSimilarProfiles w user rs = SimilarUsers result"
  shows "length result \<le> 6
       \<and> map su_login result = take 6 (first_appearances (map fst (discovered w user rs)))
       \<and> distinct (map su_login result)
       \<and> (\<forall>l. length (filter (\<lambda>c. su_login c = l) result)
                = (if l \<in> set (take 6 (first_appearances (map fst (discovered w user rs)))) then 1 else 0))
       \<and> (\<forall>c \<in> set result.
             similarity_reason c =
               (if su_login c \<in> acc_login ` set (strategy1_found w user rs) then reason1 rs
                else if su_login c \<in> acc_login ` set (strategy2_found w user rs)
                     then ''Works on similar topics''
                else ''Followed by people who follow you''))
       \<and> (\<forall>c \<in> set result.
             su_name c = (case details_response w (su_login c) of
                            Throws \<Rightarrow> None
                          | Http status nm \<Rightarrow> if ok status then nm else None))
       \<and> login user \<notin> set (map su_login result)"
proof -
  let ?M = "merged w user rs"
  let ?top = "take 6 (map snd ?M)"
  have res: "result = map (enhance w) ?top"
    by (rule findSimilarProfiles_merged [OF assms])
  have logins: "map su_login result = take 6 (first_appearances (map fst (discovered w user rs)))"
    unfolding res
    by (simp add: comp_def enhance_fields take_map [symmetric] merged_logins [unfolded map_map comp_def]
        merged_keys [symmetric])
  have a: "length result \<le> 6" unfolding res by simp
  have c: "distinct (map su_login result)"
    unfolding logins by (rule distinct_take) (rule distinct_first_appearances)
  have d: "\<forall>l. length (filter (\<lambda>c. su_login c = l) result)
                = (if l \<in> set (take 6 (first_appearances (map fst (discovered w user rs)))) then 1 else 0)"
    using count_distinct_key [OF c] unfolding logins by blast
  have top: "\<And>u. u \<in> set ?top \<Longrightarrow> map_of (discovered w user rs) (su_login u) = Some u"
  proof -
    fix u assume "u \<in> set ?top"
    then have "u \<in> snd ` set ?M" using in_set_takeD by fastforce
    then obtain k where k: "(k, u) \<in> set ?M" by auto
    from merged_values [OF k] discovered_value show "map_of (discovered w user rs) (su_login u) = Some u"
      by metis
  qed
  have e: "\<forall>c \<in> set result.
             similarity_reason c =
               (if su_login c \<in> acc_login ` set (strategy1_found w user rs) then reason1 rs
                else if su_login c \<in> acc_login ` set (strategy2_found w user rs)
                     then ''Works on similar topics''
                else ''Followed by people who follow you'')"
  proof
    fix c assume "c \<in> set result"
    then obtain u where u: "u \<in> set ?top" and cu: "c = enhance w u" unfolding res by auto
    from discovered_value [OF top [OF u]] show
      "similarity_reason c =
               (if su_login c \<in> acc_login ` set (strategy1_found w user rs) then reason1 rs
                else if su_login c \<in> acc_login ` set (strategy2_found w user rs)
                     then ''Works on similar topics''
                else ''Followed by people who follow you'')"
      unfolding cu enhance_fields by blast
  qed
  have f: "\<forall>c \<in> set result.
             su_name c = (case details_response w (su_login c) of
                            Throws \<Rightarrow> None
                          | Http status nm \<Rightarrow> if ok status then nm else None)"
  proof
    fix c assume "c \<in> set result"
    then obtain u where u: "u \<in> set ?top" and cu: "c = enhance w u" unfolding res by auto
    from discovered_value [OF top [OF u]] have "su_name u = None" by blast
    then show "su_name c = (case details_response w (su_login c) of
                            Throws \<Rightarrow> None
                          | Http status nm \<Rightarrow> if ok status then nm else None)"
      unfolding cu by (simp add: enhance_fields)
  qed
  have g: "login user \<notin> set (map su_login result)"
  proof
    assume "login user \<in> set (map su_login result)"
    then obtain c where "c \<in> set result" and "su_login c = login user" by auto
    then obtain u where u: "u \<in> set ?top" and "su_login u = login user"
      unfolding res by (auto simp: enhance_fields)
    with discovered_value [OF top [OF u]] show False by simp
  qed
  from a logins c d e f g show ?thesis by blast
qed

lemma go_repos_signals:
  "primaryLanguage_of go_repos = Some ''Go''"
  "userLanguages_of go_repos = [''Go'']"
  "userTopics_of go_repos = [''cli'']"
  by (simp_all add: primaryLanguage_of_def userLanguages_of_def userTopics_of_def go_repos_def
      sample_repo_def count_push_def set_add_def js_sort_def)

lemma sample_method1:
  "method1 sample_similar_world sample_user (Some ''Go'') [] = Some six_found"
  by (simp add: method1_def sample_similar_world_def contributors_step_def add_candidate_def
      sample_user_def acct_def candidate_def ok_def six_found_def)

lemma sample_method2:
  "method2 sample_similar_world sample_user [''cli''] six_found
     = Some (six_found @ [(''g'', candidate ''g'' None ''Works on similar topics'')])"
  by (simp add: method2_def sample_similar_world_def add_candidate_def
      sample_user_def acct_def candidate_def ok_def six_found_def)

lemma sample_method3:
  "method3 sample_similar_world sample_user
     (six_found @ [(''g'', candidate ''g'' None ''Works on similar topics'')])
     = Some (six_found @ [(''g'', candidate ''g'' None ''Works on similar topics'')])"
  by (simp add: method3_def sample_similar_world_def following_step_def add_candidate_def
      sample_user_def acct_def candidate_def ok_def six_found_def)

lemma sample_enhance:
  "map (enhance sample_similar_world)
     (take 6 (map snd (six_found @ [(''g'', candidate ''g'' None ''Works on similar topics'')])))
   = sample_result"
  by (simp add: six_found_def enhance_def sample_similar_world_def candidate_def sample_result_def
      ok_def)

lemma sample_run:
  "findSimilarProfiles sample_similar_world sample_user go_repos = SimilarUsers sample_result"
proof -
  have "go_repos \<noteq> []" by (simp add: go_repos_def)
  then show ?thesis
    unfolding findSimilarProfiles_def go_repos_signals Let_def
    by (simp only: sample_method1 sample_method2 sample_method3 sample_enhance option.case)
       simp
qed

lemma sample_strategies:
  "map acc_login (strategy2_found sample_similar_world sample_user go_repos) = [''g'', ''a'']"
  "map acc_login (strategy3_found sample_similar_world sample_user) = [''g'', ''a'']"
  by (simp_all add: strategy2_found_def strategy3_found_def following_of_def go_repos_signals
      sample_similar_world_def sample_user_def acct_def ok_def)

theorem similar_profiles_merge_witness:
  "findSimilarProfiles sample_similar_world sample_user go_repos = SimilarUsers sample_result
   \<and> length sample_result \<le> 6
   \<and> distinct (map su_login sample_result)
   \<and> login sample_user \<notin> set (map su_login sample_result)"
  using similar_profiles_merge [OF sample_run] sample_run by blast

text \<open>
  Six logins discovered by strategy 1, a seventh by strategies 2 and 3: the seventh
  is discovered twice and is not in the result.
\<close>

theorem similar_profiles_cap_counterexample:
  "''g'' \<in> set (map acc_login (strategy2_found sample_similar_world sample_user go_repos))
   \<and> ''g'' \<in> set (map acc_login (strategy3_found sample_similar_world sample_user))
   \<and> findSimilarProfiles sample_similar_world sample_user go_repos = SimilarUsers sample_result
   \<and> ''g'' \<notin> set (map su_login sample_result)"
  unfolding sample_strategies
  using sample_run by (simp add: sample_result_def candidate_def)
end
